theory Spec2Isabelle
  imports Main "HOL-Library.Sublist"
begin

section \<open>Values of the Python program\<close>

text \<open>
  What \<^verbatim>\<open>response.json()\<close> hands to the script: \<^verbatim>\<open>None\<close>, \<^verbatim>\<open>bool\<close>, \<^verbatim>\<open>int\<close>,
  \<^verbatim>\<open>str\<close>, \<^verbatim>\<open>list\<close> and \<^verbatim>\<open>dict\<close> (string keys, in insertion order; a parsed
  object has each key once). A number with a fraction or an exponent (a Python
  \<^verbatim>\<open>float\<close>) is outside this model. A character is a code point below 256.
\<close>

datatype json =
    JNull
  | JBool bool
  | JInt int
  | JStr string
  | JArr "json list"
  | JObj "(string \<times> json) list"

text \<open>The exceptions the script can die of; nothing in it catches them.\<close>

datatype py_error = AttributeError | TypeError | NameError

text \<open>An expression gives a value or raises; \<open>and_then\<close> evaluates one after another.\<close>

definition and_then :: "py_error + 'a \<Rightarrow> ('a \<Rightarrow> py_error + 'b) \<Rightarrow> py_error + 'b" where
  "and_then m f = (case m of Inl e \<Rightarrow> Inl e | Inr x \<Rightarrow> f x)"

text \<open>
  A statement run in a state leaves a new state, or it raises: then the script
  ends, and the outcome keeps the exception and the state at that moment.
\<close>

type_synonym 's outcome = "(py_error \<times> 's) + 's"

text \<open>Evaluating an expression in state \<open>s\<close> and going on with its value.\<close>

definition eval :: "py_error + 'a \<Rightarrow> 's \<Rightarrow> ('a \<Rightarrow> 's outcome) \<Rightarrow> 's outcome" where
  "eval m s k = (case m of Inl e \<Rightarrow> Inl (e, s) | Inr x \<Rightarrow> k x)"

text \<open>A \<^verbatim>\<open>for\<close> loop over a list whose body updates the state or raises.\<close>

fun for_each :: "('a \<Rightarrow> 's \<Rightarrow> 's outcome) \<Rightarrow> 'a list \<Rightarrow> 's \<Rightarrow> 's outcome" where
  "for_each body [] s = Inr s"
| "for_each body (x # xs) s =
     (case body x s of Inl died \<Rightarrow> Inl died | Inr s' \<Rightarrow> for_each body xs s')"

text \<open>The state a run ends in, and the value of a computation whose state is local.\<close>

fun final_state :: "'s outcome \<Rightarrow> 's" where
  "final_state (Inl (e, s)) = s"
| "final_state (Inr s) = s"

fun value_of :: "'s outcome \<Rightarrow> py_error + 's" where
  "value_of (Inl (e, s)) = Inl e"
| "value_of (Inr s) = Inr s"

text \<open>Truth value of an object (\<^verbatim>\<open>if x\<close>, \<^verbatim>\<open>not x\<close>, \<^verbatim>\<open>x and ...\<close>).\<close>

fun py_bool :: "json \<Rightarrow> bool" where
  "py_bool JNull = False"
| "py_bool (JBool b) = b"
| "py_bool (JInt n) = (n \<noteq> 0)"
| "py_bool (JStr s) = (s \<noteq> [])"
| "py_bool (JArr xs) = (xs \<noteq> [])"
| "py_bool (JObj d) = (d \<noteq> [])"

text \<open>\<^verbatim>\<open>x.get(key, default)\<close>: only a dict has the method.\<close>

fun py_get :: "json \<Rightarrow> string \<Rightarrow> json \<Rightarrow> py_error + json" where
  "py_get (JObj d) k dflt = Inr (case map_of d k of None \<Rightarrow> dflt | Some v \<Rightarrow> v)"
| "py_get _ k dflt = Inl AttributeError"

text \<open>\<^verbatim>\<open>len(x)\<close>.\<close>

fun py_len :: "json \<Rightarrow> py_error + int" where
  "py_len (JStr s) = Inr (int (length s))"
| "py_len (JArr xs) = Inr (int (length xs))"
| "py_len (JObj d) = Inr (int (length d))"
| "py_len _ = Inl TypeError"

text \<open>
  The items a \<^verbatim>\<open>for\<close> loop draws from an object: the elements of a list, the
  one-character strings of a string, the keys of a dict.
\<close>

fun py_iter :: "json \<Rightarrow> py_error + json list" where
  "py_iter (JArr xs) = Inr xs"
| "py_iter (JStr s) = Inr (map (\<lambda>c. JStr [c]) s)"
| "py_iter (JObj d) = Inr (map (\<lambda>kv. JStr (fst kv)) d)"
| "py_iter _ = Inl TypeError"

text \<open>\<^verbatim>\<open>isinstance(x, list)\<close> and \<^verbatim>\<open>isinstance(x, dict)\<close>.\<close>

fun is_list :: "json \<Rightarrow> bool" where
  "is_list (JArr xs) = True"
| "is_list _ = False"

fun is_dict :: "json \<Rightarrow> bool" where
  "is_dict (JObj d) = True"
| "is_dict _ = False"

subsection \<open>Rendering a value inside an f-string\<close>

function digits :: "nat \<Rightarrow> string" where
  "digits n = (if n < 10 then [''0123456789'' ! n]
               else digits (n div 10) @ [''0123456789'' ! (n mod 10)])"
  by pat_completeness auto
termination
  by (relation "measure id") auto

declare digits.simps [simp del]

definition str_int :: "int \<Rightarrow> string" where
  "str_int i = (if i < 0 then CHR ''-'' # digits (nat (- i)) else digits (nat i))"

definition hex2 :: "nat \<Rightarrow> string" where
  "hex2 n = [''0123456789abcdef'' ! (n div 16), ''0123456789abcdef'' ! (n mod 16)]"

text \<open>
  \<^verbatim>\<open>repr\<close> of a string: single quotes unless the text has a single quote and no
  double quote; backslash, the quote, tab, newline and return are escaped, and a
  character that is not printable is written \<^verbatim>\<open>\xhh\<close>.
\<close>

definition printable :: "char \<Rightarrow> bool" where
  "printable c = (let n = (of_char c :: nat) in
     (32 \<le> n \<and> n < 127) \<or> (161 \<le> n \<and> n \<noteq> 173))"

definition repr_char :: "char \<Rightarrow> char \<Rightarrow> string" where
  "repr_char q c =
     (if c = q \<or> c = CHR 0x5C then [CHR 0x5C, c]
      else if c = CHR 0x09 then [CHR 0x5C, CHR ''t'']
      else if c = CHR 0x0A then [CHR 0x5C, CHR ''n'']
      else if c = CHR 0x0D then [CHR 0x5C, CHR ''r'']
      else if printable c then [c]
      else [CHR 0x5C, CHR ''x''] @ hex2 (of_char c))"

definition repr_str :: "string \<Rightarrow> string" where
  "repr_str s =
     (let q = (if CHR 0x27 \<in> set s \<and> CHR 0x22 \<notin> set s then CHR 0x22 else CHR 0x27)
      in [q] @ concat (map (repr_char q) s) @ [q])"

fun join :: "string \<Rightarrow> string list \<Rightarrow> string" where
  "join sep [] = []"
| "join sep [x] = x"
| "join sep (x # y # ys) = x @ sep @ join sep (y # ys)"

fun py_repr :: "json \<Rightarrow> string"
  and repr_items :: "json list \<Rightarrow> string list"
  and repr_pairs :: "(string \<times> json) list \<Rightarrow> string list" where
  "py_repr JNull = ''None''"
| "py_repr (JBool b) = (if b then ''True'' else ''False'')"
| "py_repr (JInt i) = str_int i"
| "py_repr (JStr s) = repr_str s"
| "py_repr (JArr xs) = ''['' @ join '', '' (repr_items xs) @ '']''"
| "py_repr (JObj d) = ''{'' @ join '', '' (repr_pairs d) @ ''}''"
| "repr_items [] = []"
| "repr_items (x # xs) = py_repr x # repr_items xs"
| "repr_pairs [] = []"
| "repr_pairs ((k, v) # d) = (repr_str k @ '': '' @ py_repr v) # repr_pairs d"

text \<open>\<^verbatim>\<open>f"{x}"\<close>: a string is inserted as it is, anything else as its \<^verbatim>\<open>repr\<close>.\<close>

fun py_str :: "json \<Rightarrow> string" where
  "py_str (JStr s) = s"
| "py_str v = py_repr v"

section \<open>The remote service\<close>

text \<open>
  What \<^verbatim>\<open>requests.get(url)\<close> does: it raises a \<^verbatim>\<open>RequestException\<close> (no
  connection, timeout, ...) or returns a response, of which the script reads the
  text and \<^verbatim>\<open>.json()\<close>. The third field is the outcome of \<^verbatim>\<open>.json()\<close>:
  \<open>None\<close> when it raises \<^verbatim>\<open>JSONDecodeError\<close>. The status code is carried along;
  \<^verbatim>\<open>requests.get\<close> does not raise on a 4xx or 5xx status. The service answers a
  URL the same way throughout a run.
\<close>

datatype reply = RequestException | Response nat string "json option"

definition isspace :: "char \<Rightarrow> bool" where
  "isspace c = ((of_char c :: nat) \<in> {9, 10, 11, 12, 13, 28, 29, 30, 31, 32, 133, 160})"

definition strip :: "string \<Rightarrow> string" where
  "strip s = rev (dropWhile isspace (rev (dropWhile isspace s)))"

definition safe_get_json :: "(string \<Rightarrow> reply) \<Rightarrow> string \<Rightarrow> json" where
  "safe_get_json requests_get url =
     (case requests_get url of
        RequestException \<Rightarrow> JObj []
      | Response status txt js \<Rightarrow>
          if strip txt = [] then JObj []
          else (case js of None \<Rightarrow> JObj [] | Some v \<Rightarrow> v))"

section \<open>The script\<close>

definition ingredients :: "string list" where
  "ingredients = [''Exenatide'', ''Liraglutide'', ''Semaglutide'', ''Dulaglutide'',
     ''Lixisenatide'', ''Albiglutide'', ''Tirzepatide'']"

definition drug_product_term_types :: "string list" where
  "drug_product_term_types = [''SCD'', ''SBD'', ''BPCK'', ''GPCK'']"

text \<open>One dict appended to \<^verbatim>\<open>results\<close>; \<open>JNull\<close> is \<^verbatim>\<open>None\<close>.\<close>

record row =
  ingredient :: string
  rxcui :: json
  ndc :: json
  rxcui_description :: json
  ndc_description :: json

text \<open>
  The module-level names that live across the iterations of the outer loop.
  \<^verbatim>\<open>ndc_list\<close> and \<^verbatim>\<open>temp_df\<close> are unbound (\<open>None\<close>) until first assigned. A
  data frame is the list of its rows.
\<close>

record globals =
  results :: "row list"
  total_rxcui_count :: int
  total_ndc_count :: int
  ndc_list :: "json option"
  temp_df :: "row list option"

definition initial_globals :: globals where
  "initial_globals = \<lparr>results = [], total_rxcui_count = 0, total_ndc_count = 0,
     ndc_list = None, temp_df = None\<rparr>"

subsection \<open>Step 1: the identifiers of an ingredient\<close>

definition initial_url :: "string \<Rightarrow> string" where
  "initial_url ing = ''https://rxnav.nlm.nih.gov/REST/rxcui.json?name='' @ ing"

definition initial_rxcui_list :: "(string \<Rightarrow> reply) \<Rightarrow> string \<Rightarrow> py_error + json" where
  "initial_rxcui_list requests_get ing =
     (let initial_data = safe_get_json requests_get (initial_url ing) in
      and_then (py_get initial_data ''idGroup'' (JObj [])) (\<lambda>g.
        py_get g ''rxnormId'' (JArr [])))"

subsection \<open>Step 2: the related concepts, filtered and deduplicated\<close>

text \<open>
  \<^verbatim>\<open>related_rxcui_dict\<close>: keys in insertion order, each with its description.
  Keys are compared as Python compares them: \<^verbatim>\<open>True == 1\<close>, \<^verbatim>\<open>False == 0\<close>. A list
  or a dict is not hashable and cannot be looked up.
\<close>

type_synonym rxcui_dict = "(json \<times> json) list"

fun key_num :: "json \<Rightarrow> int option" where
  "key_num (JBool b) = Some (if b then 1 else 0)"
| "key_num (JInt n) = Some n"
| "key_num _ = None"

definition key_eq :: "json \<Rightarrow> json \<Rightarrow> bool" where
  "key_eq a b =
     (case key_num a of
        Some m \<Rightarrow> key_num b = Some m
      | None \<Rightarrow> key_num b = None \<and> a = b)"

definition dict_contains :: "rxcui_dict \<Rightarrow> json \<Rightarrow> py_error + bool" where
  "dict_contains d k =
     (if is_list k \<or> is_dict k then Inl TypeError
      else Inr (list_ex (\<lambda>kv. key_eq (fst kv) k) d))"

text \<open>\<^verbatim>\<open>cp.get('tty') in drug_product_term_types\<close>.\<close>

fun in_term_types :: "json \<Rightarrow> bool" where
  "in_term_types (JStr s) = (s \<in> set drug_product_term_types)"
| "in_term_types _ = False"

definition expand_cp :: "json \<Rightarrow> rxcui_dict \<Rightarrow> rxcui_dict outcome" where
  "expand_cp cp d =
     eval (py_get cp ''tty'' JNull) d (\<lambda>tty.
       if in_term_types tty then
         eval (py_get cp ''rxcui'' JNull) d (\<lambda>related_id.
         eval (py_get cp ''name'' JNull) d (\<lambda>name.
           if py_bool related_id then
             eval (dict_contains d related_id) d (\<lambda>found.
               Inr (if found then d else d @ [(related_id, name)]))
           else Inr d))
       else Inr d)"

definition expand_group :: "json \<Rightarrow> rxcui_dict \<Rightarrow> rxcui_dict outcome" where
  "expand_group grp d =
     eval (py_get grp ''conceptProperties'' (JArr [])) d (\<lambda>concept_properties.
     eval (py_iter concept_properties) d (\<lambda>cps.
       for_each expand_cp cps d))"

definition related_url :: "json \<Rightarrow> string" where
  "related_url rx = ''https://rxnav.nlm.nih.gov/REST/rxcui/'' @ py_str rx @ ''/allrelated.json''"

definition concept_groups :: "(string \<Rightarrow> reply) \<Rightarrow> json \<Rightarrow> py_error + json" where
  "concept_groups requests_get rx =
     (let related_data = safe_get_json requests_get (related_url rx) in
      and_then (py_get related_data ''allRelatedGroup'' (JObj [])) (\<lambda>g.
        py_get g ''conceptGroup'' (JArr [])))"

definition expand_rxcui :: "(string \<Rightarrow> reply) \<Rightarrow> json \<Rightarrow> rxcui_dict \<Rightarrow> rxcui_dict outcome" where
  "expand_rxcui requests_get rx d =
     eval (concept_groups requests_get rx) d (\<lambda>cg.
     eval (py_iter cg) d (\<lambda>groups.
       for_each expand_group groups d))"

text \<open>The dict is built from empty for each ingredient.\<close>

definition related_rxcui_dict :: "(string \<Rightarrow> reply) \<Rightarrow> json list \<Rightarrow> py_error + rxcui_dict" where
  "related_rxcui_dict requests_get ids = value_of (for_each (expand_rxcui requests_get) ids [])"

subsection \<open>Step 3: the product codes of each retained identifier\<close>

definition ndc_url :: "json \<Rightarrow> string" where
  "ndc_url rx = ''https://rxnav.nlm.nih.gov/REST/rxcui/'' @ py_str rx @ ''/ndcs.json''"

definition fetch_ndc_list :: "(string \<Rightarrow> reply) \<Rightarrow> json \<Rightarrow> py_error + json" where
  "fetch_ndc_list requests_get rx =
     (let ndc_data = safe_get_json requests_get (ndc_url rx) in
      and_then (py_get ndc_data ''ndcGroup'' (JObj [])) (\<lambda>g.
      and_then (py_get g ''ndcList'' (JObj [])) (\<lambda>l.
        py_get l ''ndc'' (JArr []))))"

definition ndc_prop_url :: "json \<Rightarrow> string" where
  "ndc_prop_url nd = ''https://rxnav.nlm.nih.gov/REST/ndcproperties.json?ndc='' @ py_str nd"

definition ndc_property :: "(string \<Rightarrow> reply) \<Rightarrow> json \<Rightarrow> py_error + json" where
  "ndc_property requests_get nd =
     (let ndc_prop_data = safe_get_json requests_get (ndc_prop_url nd) in
      and_then (py_get ndc_prop_data ''ndcPropertyGroup'' (JObj [])) (\<lambda>g.
        py_get g ''ndcProperty'' JNull))"

text \<open>
  \<^verbatim>\<open>ndc_description\<close>: from a list that is not empty, \<^verbatim>\<open>ndc_property[0].get('name')\<close>;
  from a dict, \<^verbatim>\<open>ndc_property.get('name')\<close>; otherwise it stays \<^verbatim>\<open>None\<close>.
\<close>

fun description_of :: "json \<Rightarrow> py_error + json" where
  "description_of (JArr (x # xs)) = py_get x ''name'' JNull"
| "description_of (JObj kvs) = py_get (JObj kvs) ''name'' JNull"
| "description_of p = Inr JNull"

definition append_row :: "row \<Rightarrow> globals \<Rightarrow> globals" where
  "append_row r st = st\<lparr>results := results st @ [r]\<rparr>"

definition ndc_step ::
  "(string \<Rightarrow> reply) \<Rightarrow> string \<Rightarrow> json \<Rightarrow> json \<Rightarrow> json \<Rightarrow> globals \<Rightarrow> globals outcome" where
  "ndc_step requests_get ing rx descr nd st =
     eval (ndc_property requests_get nd) st (\<lambda>p.
     eval (description_of p) st (\<lambda>nd_descr.
       Inr (append_row \<lparr>ingredient = ing, rxcui = rx, ndc = nd,
              rxcui_description = descr, ndc_description = nd_descr\<rparr> st)))"

definition rxcui_step ::
  "(string \<Rightarrow> reply) \<Rightarrow> string \<Rightarrow> json \<times> json \<Rightarrow> globals \<Rightarrow> globals outcome" where
  "rxcui_step requests_get ing item st =
     (let rx = fst item; descr = snd item in
      eval (fetch_ndc_list requests_get rx) st (\<lambda>l.
        let st1 = st\<lparr>ndc_list := Some l\<rparr> in
        if py_bool l then
          eval (py_len l) st1 (\<lambda>n.
            let st2 = st1\<lparr>total_ndc_count := total_ndc_count st1 + n\<rparr> in
            eval (py_iter l) st2 (\<lambda>codes.
              for_each (ndc_step requests_get ing rx descr) codes st2))
        else
          Inr (append_row \<lparr>ingredient = ing, rxcui = rx, ndc = JNull,
                 rxcui_description = descr, ndc_description = JNull\<rparr> st1)))"

subsection \<open>The outer loop and the final table\<close>

text \<open>
  The status line after the inner loop shows \<^verbatim>\<open>len(ndc_list) if ndc_list else 0\<close>.
  The name \<^verbatim>\<open>ndc_list\<close> is bound only once some identifier has been processed, in
  this or an earlier iteration of the outer loop.
\<close>

definition ndcs_found :: "globals \<Rightarrow> py_error + int" where
  "ndcs_found st =
     (case ndc_list st of
        None \<Rightarrow> Inl NameError
      | Some l \<Rightarrow> if py_bool l then py_len l else Inr 0)"

definition process_ingredient :: "(string \<Rightarrow> reply) \<Rightarrow> string \<Rightarrow> globals \<Rightarrow> globals outcome" where
  "process_ingredient requests_get ing st =
     eval (initial_rxcui_list requests_get ing) st (\<lambda>l.
       if \<not> py_bool l then Inr st
       else
         eval (py_len l) st (\<lambda>n.
         eval (py_iter l) st (\<lambda>ids.
         eval (related_rxcui_dict requests_get ids) st (\<lambda>d.
           case for_each (rxcui_step requests_get ing) d
                  (st\<lparr>total_rxcui_count := total_rxcui_count st + int (length d)\<rparr>) of
             Inl died \<Rightarrow> Inl died
           | Inr st2 \<Rightarrow>
               eval (ndcs_found st2) st2 (\<lambda>found.
                 Inr (st2\<lparr>temp_df := Some (results st2)\<rparr>))))))"

definition run :: "(string \<Rightarrow> reply) \<Rightarrow> globals outcome" where
  "run requests_get = for_each (process_ingredient requests_get) ingredients initial_globals"

text \<open>
  Step 4: \<^verbatim>\<open>df = pd.DataFrame(results)\<close>, reached only when nothing was raised
  before.
\<close>

definition df :: "(string \<Rightarrow> reply) \<Rightarrow> py_error + row list" where
  "df requests_get = and_then (value_of (run requests_get)) (\<lambda>st. Inr (results st))"

section \<open>Notions used to state the properties\<close>

subsection \<open>What a run reads from the service\<close>

definition items :: "json \<Rightarrow> json list" where
  "items v = (case py_iter v of Inr xs \<Rightarrow> xs | Inl e \<Rightarrow> [])"

definition field :: "json \<Rightarrow> string \<Rightarrow> json" where
  "field v k = (case py_get v k JNull of Inr x \<Rightarrow> x | Inl e \<Rightarrow> JNull)"

definition ids_of :: "(string \<Rightarrow> reply) \<Rightarrow> string \<Rightarrow> json list" where
  "ids_of requests_get ing =
     (case initial_rxcui_list requests_get ing of
        Inr l \<Rightarrow> if py_bool l then items l else []
      | Inl e \<Rightarrow> [])"

definition entries_of_group :: "json \<Rightarrow> json list" where
  "entries_of_group grp =
     (case py_get grp ''conceptProperties'' (JArr []) of Inr cps \<Rightarrow> items cps | Inl e \<Rightarrow> [])"

definition groups_of :: "(string \<Rightarrow> reply) \<Rightarrow> json \<Rightarrow> json list" where
  "groups_of requests_get rx =
     (case concept_groups requests_get rx of Inr cg \<Rightarrow> items cg | Inl e \<Rightarrow> [])"

text \<open>
  Every concept property entry returned for the identifiers \<open>ids\<close>, in the order
  the three nested loops of step 2 visit them.
\<close>

definition entries :: "(string \<Rightarrow> reply) \<Rightarrow> json list \<Rightarrow> json list" where
  "entries requests_get ids =
     concat (map (\<lambda>rx. concat (map entries_of_group (groups_of requests_get rx))) ids)"

definition codes_of :: "(string \<Rightarrow> reply) \<Rightarrow> json \<Rightarrow> json" where
  "codes_of requests_get rx =
     (case fetch_ndc_list requests_get rx of Inr l \<Rightarrow> l | Inl e \<Rightarrow> JNull)"

definition payload :: "(string \<Rightarrow> reply) \<Rightarrow> json \<Rightarrow> json" where
  "payload requests_get nd =
     (case ndc_property requests_get nd of Inr p \<Rightarrow> p | Inl e \<Rightarrow> JNull)"

definition code_description :: "(string \<Rightarrow> reply) \<Rightarrow> json \<Rightarrow> json" where
  "code_description requests_get nd =
     (case and_then (ndc_property requests_get nd) description_of of
        Inr x \<Rightarrow> x | Inl e \<Rightarrow> JNull)"

subsection \<open>The accepted term types and first-seen deduplication\<close>

definition accepted_tag :: "json \<Rightarrow> bool" where
  "accepted_tag t = (t \<in> {JStr ''SCD'', JStr ''SBD'', JStr ''BPCK'', JStr ''GPCK''})"

text \<open>An entry is retained when its tag is accepted and its identifier is truthy.\<close>

definition retained :: "json \<Rightarrow> bool" where
  "retained cp = (accepted_tag (field cp ''tty'') \<and> py_bool (field cp ''rxcui''))"

definition retained_pairs :: "json list \<Rightarrow> rxcui_dict" where
  "retained_pairs cps = map (\<lambda>cp. (field cp ''rxcui'', field cp ''name'')) (filter retained cps)"

definition has_key :: "rxcui_dict \<Rightarrow> json \<Rightarrow> bool" where
  "has_key d k = list_ex (\<lambda>kv. key_eq (fst kv) k) d"

text \<open>
  Each identifier once, at the place of its first occurrence and with the
  description found there.
\<close>

function first_seen :: "rxcui_dict \<Rightarrow> rxcui_dict" where
  "first_seen [] = []"
| "first_seen (kv # kvs) = kv # first_seen (filter (\<lambda>kv'. \<not> key_eq (fst kv') (fst kv)) kvs)"
  by pat_completeness auto
termination
  by (relation "measure length") (auto simp: less_Suc_eq_le)

definition discovered :: "(string \<Rightarrow> reply) \<Rightarrow> string \<Rightarrow> rxcui_dict" where
  "discovered requests_get ing =
     first_seen (retained_pairs (entries requests_get (ids_of requests_get ing)))"

subsection \<open>The rows in processing order\<close>

definition code_row :: "(string \<Rightarrow> reply) \<Rightarrow> string \<Rightarrow> json \<Rightarrow> json \<Rightarrow> json \<Rightarrow> row" where
  "code_row requests_get ing rx descr nd =
     \<lparr>ingredient = ing, rxcui = rx, ndc = nd, rxcui_description = descr,
      ndc_description = code_description requests_get nd\<rparr>"

definition null_row :: "string \<Rightarrow> json \<Rightarrow> json \<Rightarrow> row" where
  "null_row ing rx descr =
     \<lparr>ingredient = ing, rxcui = rx, ndc = JNull, rxcui_description = descr,
      ndc_description = JNull\<rparr>"

text \<open>The rows of one identifier: one per code in list order, or the single null row.\<close>

definition item_rows :: "(string \<Rightarrow> reply) \<Rightarrow> string \<Rightarrow> json \<times> json \<Rightarrow> row list" where
  "item_rows requests_get ing item =
     (if py_bool (codes_of requests_get (fst item))
      then map (code_row requests_get ing (fst item) (snd item))
             (items (codes_of requests_get (fst item)))
      else [null_row ing (fst item) (snd item)])"

text \<open>The rows of one ingredient: its identifiers in discovery order.\<close>

definition ingredient_rows :: "(string \<Rightarrow> reply) \<Rightarrow> string \<Rightarrow> row list" where
  "ingredient_rows requests_get ing =
     concat (map (item_rows requests_get ing) (discovered requests_get ing))"




subsection \<open>Failed and empty replies\<close>

text \<open>
  A reply that \<^verbatim>\<open>safe_get_json\<close> absorbs: the request raised, the body is empty or
  blank, or the body does not parse.
\<close>

fun failed :: "reply \<Rightarrow> bool" where
  "failed RequestException = True"
| "failed (Response status txt js) = (strip txt = [] \<or> js = None)"

text \<open>
  A parsed body holds nothing at a path of keys: some key on the way is absent, or
  the value at the end is the empty list.
\<close>

fun nothing_at :: "json \<Rightarrow> string list \<Rightarrow> bool" where
  "nothing_at v [] = (v = JArr [])"
| "nothing_at (JObj kvs) (k # ks) =
     (case map_of kvs k of None \<Rightarrow> True | Some v \<Rightarrow> nothing_at v ks)"
| "nothing_at _ (k # ks) = False"

text \<open>The four call sites, told apart by the shape of the URL.\<close>

datatype stage = Lookup | Related | Codes | Properties

definition stage_of :: "string \<Rightarrow> stage option" where
  "stage_of u =
     (if prefix ''https://rxnav.nlm.nih.gov/REST/rxcui.json?name='' u then Some Lookup
      else if prefix ''https://rxnav.nlm.nih.gov/REST/ndcproperties.json?ndc='' u then Some Properties
      else if prefix ''https://rxnav.nlm.nih.gov/REST/rxcui/'' u \<and> suffix ''/allrelated.json'' u
        then Some Related
      else if prefix ''https://rxnav.nlm.nih.gov/REST/rxcui/'' u \<and> suffix ''/ndcs.json'' u
        then Some Codes
      else None)"

fun data_path :: "stage \<Rightarrow> string list" where
  "data_path Lookup = [''idGroup'', ''rxnormId'']"
| "data_path Related = [''allRelatedGroup'', ''conceptGroup'']"
| "data_path Codes = [''ndcGroup'', ''ndcList'', ''ndc'']"
| "data_path Properties = [''ndcPropertyGroup'', ''ndcProperty'']"

subsection \<open>The description of a product code, as the specification words it\<close>

fun name_field :: "json \<Rightarrow> json" where
  "name_field (JObj kvs) = (case map_of kvs ''name'' of None \<Rightarrow> JNull | Some v \<Rightarrow> v)"
| "name_field _ = JNull"

fun payload_name :: "json \<Rightarrow> json" where
  "payload_name (JArr (x # xs)) = name_field x"
| "payload_name (JObj kvs) = name_field (JObj kvs)"
| "payload_name _ = JNull"

fun list_of_objects :: "json \<Rightarrow> bool" where
  "list_of_objects (JArr (x # xs)) = is_dict x"
| "list_of_objects _ = True"

section \<open>A sample service\<close>

text \<open>
  The exchange of the specification's end-to-end example: only the four URLs of
  Exenatide answer, every other request fails.
\<close>

definition lookup_body :: json where
  "lookup_body = JObj [(''idGroup'', JObj [(''rxnormId'', JArr [JStr ''84108''])])]"

definition related_body :: json where
  "related_body =
     JObj [(''allRelatedGroup'', JObj [(''conceptGroup'', JArr [
       JObj [(''tty'', JStr ''BN'')],
       JObj [(''tty'', JStr ''SCD''), (''conceptProperties'', JArr [
         JObj [(''rxcui'', JStr ''311036''),
               (''name'', JStr ''exenatide 250 MCG/ML Injectable Solution''),
               (''tty'', JStr ''SCD'')]])]])])]"

definition codes_body :: json where
  "codes_body = JObj [(''ndcGroup'', JObj [(''ndcList'', JObj [(''ndc'', JArr [JStr ''00002-1433-01''])])])]"

definition properties_body :: json where
  "properties_body =
     JObj [(''ndcPropertyGroup'', JObj [(''ndcProperty'',
       JObj [(''name'', JStr ''exenatide 250 MCG/ML Injectable Solution [Byetta]'')])])]"

definition lookup_text :: string where
  \<open>lookup_text = ''{"idGroup":{"rxnormId":["84108"]}}''\<close>

definition related_text :: string where
  \<open>related_text = ''{"allRelatedGroup":{"conceptGroup":[{"tty":"BN"},{"tty":"SCD","conceptProperties":[{"rxcui":"311036","name":"exenatide 250 MCG/ML Injectable Solution","tty":"SCD"}]}]}}''\<close>

definition codes_text :: string where
  \<open>codes_text = ''{"ndcGroup":{"ndcList":{"ndc":["00002-1433-01"]}}}''\<close>

definition properties_text :: string where
  \<open>properties_text = ''{"ndcPropertyGroup":{"ndcProperty":{"name":"exenatide 250 MCG/ML Injectable Solution [Byetta]"}}}''\<close>

definition sample_service :: "string \<Rightarrow> reply" where
  "sample_service u =
     (if u = ''https://rxnav.nlm.nih.gov/REST/rxcui.json?name=Exenatide''
        then Response 200 lookup_text (Some lookup_body)
      else if u = ''https://rxnav.nlm.nih.gov/REST/rxcui/84108/allrelated.json''
        then Response 200 related_text (Some related_body)
      else if u = ''https://rxnav.nlm.nih.gov/REST/rxcui/311036/ndcs.json''
        then Response 200 codes_text (Some codes_body)
      else if u = ''https://rxnav.nlm.nih.gov/REST/ndcproperties.json?ndc=00002-1433-01''
        then Response 200 properties_text (Some properties_body)
      else RequestException)"

text \<open>
  A related-concepts answer in which the identifier 311036 comes twice, under two
  names, and the service that gives it for 84108.
\<close>

definition repeated_body :: json where
  "repeated_body =
     JObj [(''allRelatedGroup'', JObj [(''conceptGroup'', JArr [
       JObj [(''tty'', JStr ''SBD''), (''conceptProperties'', JArr [
         JObj [(''rxcui'', JStr ''847910''), (''name'', JStr ''Byetta 5 MCG''), (''tty'', JStr ''SBD'')],
         JObj [(''rxcui'', JStr ''311036''), (''name'', JStr ''first name''), (''tty'', JStr ''SBD'')]])],
       JObj [(''tty'', JStr ''SCD''), (''conceptProperties'', JArr [
         JObj [(''rxcui'', JStr ''311036''), (''name'', JStr ''second name''), (''tty'', JStr ''SCD'')]])]])])]"

definition repeated_text :: string where
  \<open>repeated_text = ''{"allRelatedGroup":{"conceptGroup":[{"tty":"SBD","conceptProperties":[{"rxcui":"847910","name":"Byetta 5 MCG","tty":"SBD"},{"rxcui":"311036","name":"first name","tty":"SBD"}]},{"tty":"SCD","conceptProperties":[{"rxcui":"311036","name":"second name","tty":"SCD"}]}]}}''\<close>

definition repeating_service :: "string \<Rightarrow> reply" where
  "repeating_service =
     sample_service(''https://rxnav.nlm.nih.gov/REST/rxcui/84108/allrelated.json'' :=
       Response 200 repeated_text (Some repeated_body))"

text \<open>
  A code list of three for 311036: the first code has a single object as property
  payload, the second a list of two objects, and the request for the third fails.
\<close>

definition three_codes_body :: json where
  "three_codes_body =
     JObj [(''ndcGroup'', JObj [(''rxcui'', JStr ''311036''), (''ndcList'', JObj [(''ndc'',
       JArr [JStr ''00002-1433-01'', JStr ''66780-0210-07'', JStr ''00310-6512-01''])])])]"

definition three_codes_text :: string where
  \<open>three_codes_text = ''{"ndcGroup":{"rxcui":"311036","ndcList":{"ndc":["00002-1433-01","66780-0210-07","00310-6512-01"]}}}''\<close>

definition listed_properties_body :: json where
  "listed_properties_body =
     JObj [(''ndcPropertyGroup'', JObj [(''ndcProperty'',
       JArr [JObj [(''name'', JStr ''Byetta pen'')], JObj [(''name'', JStr ''second entry'')]])])]"

definition listed_properties_text :: string where
  \<open>listed_properties_text = ''{"ndcPropertyGroup":{"ndcProperty":[{"name":"Byetta pen"},{"name":"second entry"}]}}''\<close>

definition three_codes_service :: "string \<Rightarrow> reply" where
  "three_codes_service =
     sample_service
      (''https://rxnav.nlm.nih.gov/REST/rxcui/311036/ndcs.json'' :=
         Response 200 three_codes_text (Some three_codes_body),
       ''https://rxnav.nlm.nih.gov/REST/ndcproperties.json?ndc=66780-0210-07'' :=
         Response 200 listed_properties_text (Some listed_properties_body))"

text \<open>
  The same three codes, but the property payload of the second is a list whose
  first entry is a string, not an object.
\<close>

definition string_payload_body :: json where
  "string_payload_body =
     JObj [(''ndcPropertyGroup'', JObj [(''ndcProperty'', JArr [JStr ''Byetta pen''])])]"

definition string_payload_text :: string where
  \<open>string_payload_text = ''{"ndcPropertyGroup":{"ndcProperty":["Byetta pen"]}}''\<close>

definition string_payload_service :: "string \<Rightarrow> reply" where
  "string_payload_service =
     three_codes_service(''https://rxnav.nlm.nih.gov/REST/ndcproperties.json?ndc=66780-0210-07'' :=
       Response 200 string_payload_text (Some string_payload_body))"

text \<open>Two identifiers for Exenatide, the second with three codes.\<close>

definition two_identifier_service :: "string \<Rightarrow> reply" where
  "two_identifier_service =
     three_codes_service(''https://rxnav.nlm.nih.gov/REST/rxcui/84108/allrelated.json'' :=
       Response 200 repeated_text (Some repeated_body))"




text \<open>An identifier for which the service knows no codes.\<close>

definition no_codes_body :: json where
  "no_codes_body = JObj [(''ndcGroup'', JObj [(''rxcui'', JNull), (''ndcList'', JObj [])])]"

definition no_codes_text :: string where
  \<open>no_codes_text = ''{"ndcGroup":{"rxcui":null,"ndcList":{}}}''\<close>

definition no_codes_service :: "string \<Rightarrow> reply" where
  "no_codes_service =
     sample_service(''https://rxnav.nlm.nih.gov/REST/rxcui/311036/ndcs.json'' :=
       Response 200 no_codes_text (Some no_codes_body))"

text \<open>
  The name lookup of Exenatide answered with status 500 and the usual body, and
  answered with a body that names no identifier.
\<close>

definition http_error_service :: "string \<Rightarrow> reply" where
  "http_error_service =
     sample_service(''https://rxnav.nlm.nih.gov/REST/rxcui.json?name=Exenatide'' :=
       Response 500 lookup_text (Some lookup_body))"

definition empty_lookup_body :: json where
  "empty_lookup_body = JObj [(''idGroup'', JObj [])]"

definition empty_lookup_text :: string where
  \<open>empty_lookup_text = ''{"idGroup":{}}''\<close>

definition empty_lookup_service :: "string \<Rightarrow> reply" where
  "empty_lookup_service =
     sample_service(''https://rxnav.nlm.nih.gov/REST/rxcui.json?name=Exenatide'' :=
       Response 200 empty_lookup_text (Some empty_lookup_body))"


text \<open>A state in which an earlier ingredient has left a record for 311036.\<close>

definition earlier_state :: globals where
  "earlier_state =
     initial_globals\<lparr>results := [null_row ''Liraglutide'' (JStr ''311036'') (JStr ''earlier'')]\<rparr>"

section \<open>Sequencing and loops\<close>

lemma and_then_Inl [simp]: "and_then (Inl e) f = Inl e"
  by (simp add: and_then_def)

lemma and_then_Inr [simp]: "and_then (Inr x) f = f x"
  by (simp add: and_then_def)

lemma eval_Inl [simp]: "eval (Inl e) s k = Inl (e, s)"
  by (simp add: eval_def)

lemma eval_Inr [simp]: "eval (Inr x) s k = k x"
  by (simp add: eval_def)

lemma eval_eq_Inr: "eval m s k = Inr y \<longleftrightarrow> (\<exists>x. m = Inr x \<and> k x = Inr y)"
  by (cases m) simp_all

lemma eval_eq_Inl:
  "eval m s k = Inl died \<longleftrightarrow> (\<exists>e. m = Inl e \<and> died = (e, s)) \<or> (\<exists>x. m = Inr x \<and> k x = Inl died)"
  by (cases m) auto

lemma value_of_eq_Inr [simp]: "value_of r = Inr x \<longleftrightarrow> r = Inr x"
  by (cases r rule: value_of.cases) simp_all

lemma for_each_Cons_Inr:
  "for_each body (x # xs) s = Inr s' \<longleftrightarrow>
   (\<exists>s1. body x s = Inr s1 \<and> for_each body xs s1 = Inr s')"
  by (cases "body x s") simp_all

lemma for_each_Cons_Inl:
  "for_each body (x # xs) s = Inl died \<longleftrightarrow>
   body x s = Inl died \<or> (\<exists>s1. body x s = Inr s1 \<and> for_each body xs s1 = Inl died)"
  by (cases "body x s") simp_all

lemma for_each_append:
  "for_each body (xs @ ys) s =
     (case for_each body xs s of Inl died \<Rightarrow> Inl died | Inr s' \<Rightarrow> for_each body ys s')"
proof (induction xs arbitrary: s)
  case Nil
  show ?case by simp
next
  case (Cons x xs)
  show ?case
  proof (cases "body x s")
    case (Inl died)
    then show ?thesis by simp
  next
    case (Inr s')
    with Cons show ?thesis by simp
  qed
qed

lemma for_each_concat:
  assumes "\<And>x s s'. x \<in> set xs \<Longrightarrow> outer x s = Inr s' \<Longrightarrow> for_each inner (sub x) s = Inr s'"
  shows "for_each outer xs s = Inr s' \<Longrightarrow> for_each inner (concat (map sub xs)) s = Inr s'"
  using assms
proof (induction xs arbitrary: s)
  case Nil
  then show ?case by simp
next
  case (Cons x xs)
  from Cons.prems(1) obtain s1 where step: "outer x s = Inr s1"
    and rest: "for_each outer xs s1 = Inr s'"
    by (auto split: sum.splits)
  have "for_each inner (sub x) s = Inr s1" using Cons.prems(2) step by simp
  moreover have "for_each inner (concat (map sub xs)) s1 = Inr s'"
    using Cons.IH [OF rest] Cons.prems(2) by simp
  ultimately show ?case by (simp add: for_each_append)
qed

lemma for_each_results:
  assumes "\<And>x s s'. x \<in> set xs \<Longrightarrow> body x s = Inr s' \<Longrightarrow> results s' = results s @ rows x"
  shows "for_each body xs s = Inr s' \<Longrightarrow> results s' = results s @ concat (map rows xs)"
  using assms
proof (induction xs arbitrary: s)
  case Nil
  then show ?case by simp
next
  case (Cons x xs)
  from Cons.prems(1) obtain s1 where step: "body x s = Inr s1"
    and rest: "for_each body xs s1 = Inr s'"
    by (auto split: sum.splits)
  have "results s1 = results s @ rows x" using Cons.prems(2) step by simp
  moreover have "results s' = results s1 @ concat (map rows xs)"
    using Cons.IH [OF rest] Cons.prems(2) by simp
  ultimately show ?case by simp
qed

lemma for_each_succeeds:
  assumes "\<And>x s. x \<in> set xs \<Longrightarrow> \<exists>s'. body x s = Inr s'"
  shows "\<exists>s'. for_each body xs s = Inr s'"
  using assms
proof (induction xs arbitrary: s)
  case Nil
  show ?case by simp
next
  case (Cons x xs)
  from Cons.prems obtain s1 where "body x s = Inr s1" by force
  moreover from Cons have "\<exists>s'. for_each body xs s1 = Inr s'" by simp
  ultimately show ?case by simp
qed

section \<open>Keys of the dict\<close>

lemma key_eq_refl [simp]: "key_eq a a"
  by (cases "key_num a") (auto simp: key_eq_def)

lemma key_eq_sym: "key_eq a b = key_eq b a"
  by (cases "key_num a"; cases "key_num b") (auto simp: key_eq_def)

lemma key_eq_trans: "key_eq a b \<Longrightarrow> key_eq b c \<Longrightarrow> key_eq a c"
  by (cases "key_num a"; cases "key_num b"; cases "key_num c") (auto simp: key_eq_def)

lemma has_key_append: "has_key (d @ [(k, v)]) k' = (has_key d k' \<or> key_eq k k')"
  by (auto simp: has_key_def list_ex_iff)

lemma set_first_seen: "set (first_seen xs) \<subseteq> set xs"
  by (induction xs rule: first_seen.induct) auto

lemma first_seen_key_unique:
  "kv \<in> set (first_seen xs) \<Longrightarrow> kv' \<in> set (first_seen xs) \<Longrightarrow>
   key_eq (fst kv) (fst kv') \<Longrightarrow> kv = kv'"
proof (induction xs rule: first_seen.induct)
  case 1
  then show ?case by simp
next
  case (2 p ps)
  let ?tail = "first_seen (filter (\<lambda>kv'. \<not> key_eq (fst kv') (fst p)) ps)"
  have tail: "\<not> key_eq (fst x) (fst p)" if "x \<in> set ?tail" for x
    using that set_first_seen [of "filter (\<lambda>kv'. \<not> key_eq (fst kv') (fst p)) ps"] by auto
  from "2.prems" consider "kv = p" "kv' = p" | "kv = p" "kv' \<in> set ?tail"
    | "kv \<in> set ?tail" "kv' = p" | "kv \<in> set ?tail" "kv' \<in> set ?tail"
    by auto
  then show ?case
  proof cases
    case 1
    then show ?thesis by simp
  next
    case 2
    with tail [of kv'] "2.prems"(3) show ?thesis by (simp add: key_eq_sym)
  next
    case 3
    with tail [of kv] "2.prems"(3) show ?thesis by simp
  next
    case 4
    with "2.IH" "2.prems"(3) show ?thesis by simp
  qed
qed

lemma distinct_first_seen: "distinct (map fst (first_seen xs))"
proof (induction xs rule: first_seen.induct)
  case 1
  show ?case by simp
next
  case (2 p ps)
  have "fst p \<notin> fst ` set (first_seen (filter (\<lambda>kv'. \<not> key_eq (fst kv') (fst p)) ps))"
    using set_first_seen [of "filter (\<lambda>kv'. \<not> key_eq (fst kv') (fst p)) ps"] by auto
  with 2 show ?case by simp
qed

lemma find_filter_same:
  "(\<And>x. x \<in> set xs \<Longrightarrow> Q x \<Longrightarrow> R x) \<Longrightarrow> find Q (filter R xs) = find Q xs"
  by (induction xs) auto

lemma find_first_seen:
  "kv \<in> set (first_seen xs) \<Longrightarrow> find (\<lambda>p. key_eq (fst p) (fst kv)) xs = Some kv"
proof (induction xs rule: first_seen.induct)
  case 1
  then show ?case by simp
next
  case (2 p ps)
  let ?R = "\<lambda>kv'. \<not> key_eq (fst kv') (fst p)"
  show ?case
  proof (cases "kv = p")
    case True
    then show ?thesis by simp
  next
    case False
    with "2.prems" have mem: "kv \<in> set (first_seen (filter ?R ps))" by simp
    with set_first_seen [of "filter ?R ps"] have not_p: "\<not> key_eq (fst kv) (fst p)" by auto
    have "find (\<lambda>q. key_eq (fst q) (fst kv)) (filter ?R ps) = Some kv"
      using "2.IH" mem by simp
    moreover have keep: "?R x" if "key_eq (fst x) (fst kv)" for x
      using that not_p key_eq_trans [of "fst kv" "fst x" "fst p"] by (auto simp: key_eq_sym)
    have "find (\<lambda>q. key_eq (fst q) (fst kv)) (filter ?R ps) =
          find (\<lambda>q. key_eq (fst q) (fst kv)) ps"
      by (rule find_filter_same) (rule keep)
    ultimately have "find (\<lambda>q. key_eq (fst q) (fst kv)) ps = Some kv"
      by simp
    with not_p show ?thesis by (simp add: key_eq_sym)
  qed
qed

section \<open>Step 2 as one loop over all entries\<close>

lemma in_term_types_accepted: "in_term_types t = accepted_tag t"
  by (cases t) (auto simp: drug_product_term_types_def accepted_tag_def)

lemma expand_cp_step:
  assumes "expand_cp cp d = Inr d'"
  shows "d' = (if retained cp \<and> \<not> has_key d (field cp ''rxcui'')
               then d @ [(field cp ''rxcui'', field cp ''name'')] else d)"
proof (cases cp)
  case (JObj kvs)
  with assms show ?thesis
    by (auto simp: expand_cp_def retained_def field_def in_term_types_accepted has_key_def
        dict_contains_def eval_eq_Inr split: if_splits)
qed (use assms in \<open>simp_all add: expand_cp_def\<close>)

lemma for_each_expand_cp:
  "for_each expand_cp cps d = Inr d' \<Longrightarrow>
   d' = d @ first_seen (filter (\<lambda>kv. \<not> has_key d (fst kv)) (retained_pairs cps))"
proof (induction cps arbitrary: d)
  case Nil
  then show ?case by (simp add: retained_pairs_def)
next
  case (Cons cp cps)
  from Cons.prems obtain d1 where step: "expand_cp cp d = Inr d1"
    and rest: "for_each expand_cp cps d1 = Inr d'"
    by (auto split: sum.splits)
  note ih = Cons.IH [OF rest]
  let ?k = "field cp ''rxcui''" and ?v = "field cp ''name''"
  show ?case
  proof (cases "retained cp")
    case False
    with expand_cp_step [OF step] ih show ?thesis by (simp add: retained_pairs_def)
  next
    case True
    show ?thesis
    proof (cases "has_key d ?k")
      case True
      with \<open>retained cp\<close> expand_cp_step [OF step] ih show ?thesis
        by (simp add: retained_pairs_def)
    next
      case False
      with \<open>retained cp\<close> expand_cp_step [OF step] have d1: "d1 = d @ [(?k, ?v)]" by simp
      have eq: "filter (\<lambda>kv. \<not> has_key d1 (fst kv)) xs =
            filter (\<lambda>kv'. \<not> key_eq (fst kv') ?k) (filter (\<lambda>kv. \<not> has_key d (fst kv)) xs)" for xs
        unfolding d1 by (induction xs) (auto simp: has_key_append key_eq_sym)
      have pairs: "retained_pairs (cp # cps) = (?k, ?v) # retained_pairs cps"
        using \<open>retained cp\<close> by (simp add: retained_pairs_def)
      have "d' = d @ (?k, ?v) # first_seen (filter (\<lambda>kv'. \<not> key_eq (fst kv') ?k)
                 (filter (\<lambda>kv. \<not> has_key d (fst kv)) (retained_pairs cps)))"
        using ih unfolding eq by (simp add: d1)
      also have "(?k, ?v) # first_seen (filter (\<lambda>kv'. \<not> key_eq (fst kv') ?k)
                 (filter (\<lambda>kv. \<not> has_key d (fst kv)) (retained_pairs cps))) =
                 first_seen (filter (\<lambda>kv. \<not> has_key d (fst kv)) (retained_pairs (cp # cps)))"
        unfolding pairs using False by simp
      finally show ?thesis .
    qed
  qed
qed

lemma expand_group_flat:
  "expand_group grp d = Inr d' \<Longrightarrow> for_each expand_cp (entries_of_group grp) d = Inr d'"
  by (auto simp: expand_group_def entries_of_group_def items_def eval_eq_Inr)

lemma expand_rxcui_flat:
  assumes "expand_rxcui requests_get rx d = Inr d'"
  shows "for_each expand_cp (concat (map entries_of_group (groups_of requests_get rx))) d = Inr d'"
proof -
  from assms obtain cg gs where "concept_groups requests_get rx = Inr cg" "py_iter cg = Inr gs"
    and loop: "for_each expand_group gs d = Inr d'"
    by (auto simp: expand_rxcui_def eval_eq_Inr)
  then have "groups_of requests_get rx = gs" by (simp add: groups_of_def items_def)
  with for_each_concat [OF expand_group_flat loop] show ?thesis by simp
qed

lemma related_rxcui_dict_flat:
  assumes "related_rxcui_dict requests_get ids = Inr d"
  shows "d = first_seen (retained_pairs (entries requests_get ids))"
proof -
  have "for_each expand_cp (entries requests_get ids) [] = Inr d"
    unfolding entries_def
    using assms for_each_concat [of ids "expand_rxcui requests_get" expand_cp] expand_rxcui_flat
    by (simp add: related_rxcui_dict_def)
  from for_each_expand_cp [OF this] show ?thesis by (simp add: has_key_def)
qed

section \<open>Step 3 and the outer loop: the rows appended\<close>

lemma ndc_step_row:
  "ndc_step requests_get ing rx descr nd st = Inr st' \<Longrightarrow>
   st' = append_row (code_row requests_get ing rx descr nd) st"
  by (auto simp: ndc_step_def code_row_def code_description_def eval_eq_Inr)

lemma ndc_loop_rows:
  assumes "for_each (ndc_step requests_get ing rx descr) codes st = Inr st'"
  shows "results st' = results st @ map (code_row requests_get ing rx descr) codes"
proof -
  have "results s' = results s @ [code_row requests_get ing rx descr nd]"
    if "ndc_step requests_get ing rx descr nd s = Inr s'" for nd s s'
    using ndc_step_row [OF that] by (simp add: append_row_def)
  from for_each_results [of codes "ndc_step requests_get ing rx descr"
      "\<lambda>nd. [code_row requests_get ing rx descr nd]", OF this assms]
  show ?thesis by simp
qed

lemma rxcui_step_rows:
  assumes "rxcui_step requests_get ing item st = Inr st'"
  shows "results st' = results st @ item_rows requests_get ing item"
proof -
  from assms obtain l where l: "fetch_ndc_list requests_get (fst item) = Inr l"
    by (auto simp: rxcui_step_def Let_def eval_eq_Inr)
  then have codes: "codes_of requests_get (fst item) = l" by (simp add: codes_of_def)
  show ?thesis
  proof (cases "py_bool l")
    case False
    with assms l codes show ?thesis
      by (auto simp: rxcui_step_def Let_def item_rows_def null_row_def append_row_def)
  next
    case True
    with assms l obtain n cs where "py_iter l = Inr cs"
      and loop: "for_each (ndc_step requests_get ing (fst item) (snd item)) cs
        (st\<lparr>ndc_list := Some l, total_ndc_count := total_ndc_count st + n\<rparr>) = Inr st'"
      by (auto simp: rxcui_step_def Let_def eval_eq_Inr)
    then have "items l = cs" by (simp add: items_def)
    with ndc_loop_rows [OF loop] True codes show ?thesis by (simp add: item_rows_def)
  qed
qed

lemma rxcui_loop_rows:
  assumes "for_each (rxcui_step requests_get ing) d st = Inr st'"
  shows "results st' = results st @ concat (map (item_rows requests_get ing) d)"
  using for_each_results [OF _ assms] rxcui_step_rows by blast

lemma process_ingredient_rows:
  assumes "process_ingredient requests_get ing st = Inr st'"
  shows "results st' = results st @ ingredient_rows requests_get ing"
proof -
  from assms obtain l where l: "initial_rxcui_list requests_get ing = Inr l"
    by (auto simp: process_ingredient_def eval_eq_Inr)
  show ?thesis
  proof (cases "py_bool l")
    case False
    with l have "ids_of requests_get ing = []" by (simp add: ids_of_def)
    then have "ingredient_rows requests_get ing = []"
      by (simp add: ingredient_rows_def discovered_def entries_def retained_pairs_def)
    with assms l False show ?thesis by (simp add: process_ingredient_def)
  next
    case True
    with assms l obtain ids d where ids: "py_iter l = Inr ids"
      and d: "related_rxcui_dict requests_get ids = Inr d"
      and rest: "(case for_each (rxcui_step requests_get ing) d
                  (st\<lparr>total_rxcui_count := total_rxcui_count st + int (length d)\<rparr>) of
             Inl died \<Rightarrow> Inl died
           | Inr st2 \<Rightarrow>
               eval (ndcs_found st2) st2 (\<lambda>found.
                 Inr (st2\<lparr>temp_df := Some (results st2)\<rparr>))) = Inr st'"
      by (auto simp: process_ingredient_def eval_eq_Inr)
    then obtain st2 where loop: "for_each (rxcui_step requests_get ing) d
        (st\<lparr>total_rxcui_count := total_rxcui_count st + int (length d)\<rparr>) = Inr st2"
      and st': "st' = st2\<lparr>temp_df := Some (results st2)\<rparr>"
      by (auto simp: eval_eq_Inr split: sum.splits)
    from l True ids have "ids_of requests_get ing = ids" by (simp add: ids_of_def items_def)
    with related_rxcui_dict_flat [OF d] have "discovered requests_get ing = d"
      by (simp add: discovered_def)
    with rxcui_loop_rows [OF loop] st' show ?thesis
      by (simp add: ingredient_rows_def)
  qed
qed

lemma outer_loop_rows:
  assumes "for_each (process_ingredient requests_get) ings st = Inr st'"
  shows "results st' = results st @ concat (map (ingredient_rows requests_get) ings)"
  using for_each_results [OF _ assms] process_ingredient_rows by blast

subsection \<open>When a step raises\<close>

lemma for_each_died:
  assumes ok: "\<And>x s s'. x \<in> set xs \<Longrightarrow> body x s = Inr s' \<Longrightarrow> results s' = results s @ rows x"
    and died: "\<And>x s e s'. x \<in> set xs \<Longrightarrow> body x s = Inl (e, s') \<Longrightarrow>
                 \<exists>p. prefix p (rows x) \<and> results s' = results s @ p"
  shows "for_each body xs s = Inl (e, s') \<Longrightarrow>
         \<exists>p. prefix p (concat (map rows xs)) \<and> results s' = results s @ p"
  using assms
proof (induction xs arbitrary: s)
  case Nil
  then show ?case by simp
next
  case (Cons x xs)
  from Cons.prems(1) consider "body x s = Inl (e, s')"
    | s1 where "body x s = Inr s1" "for_each body xs s1 = Inl (e, s')"
    by (auto simp: for_each_Cons_Inl simp del: for_each.simps)
  then show ?case
  proof cases
    case 1
    with Cons.prems(3) [of x s e s'] obtain p where "prefix p (rows x)"
      and "results s' = results s @ p" by auto
    then show ?thesis by (auto intro: prefix_prefix)
  next
    case 2
    from 2(1) Cons.prems(2) have s1: "results s1 = results s @ rows x" by simp
    from Cons.IH [OF 2(2)] Cons.prems(2,3) obtain p
      where "prefix p (concat (map rows xs))" and "results s' = results s1 @ p"
      by (metis list.set_intros(2))
    with s1 have "prefix (rows x @ p) (concat (map rows (x # xs)))"
      and "results s' = results s @ rows x @ p" by simp_all
    then show ?thesis by blast
  qed
qed

lemma ndc_step_died:
  "ndc_step requests_get ing rx descr nd st = Inl (e, s') \<Longrightarrow> s' = st"
  by (auto simp: ndc_step_def eval_eq_Inl)

lemma ndc_loop_died:
  assumes "for_each (ndc_step requests_get ing rx descr) codes st = Inl (e, s')"
  shows "\<exists>p. prefix p (map (code_row requests_get ing rx descr) codes) \<and> results s' = results st @ p"
proof -
  have ok: "results s' = results s @ [code_row requests_get ing rx descr nd]"
    if "ndc_step requests_get ing rx descr nd s = Inr s'" for nd s s'
    using ndc_step_row [OF that] by (simp add: append_row_def)
  have died: "\<exists>p. prefix p [code_row requests_get ing rx descr nd] \<and> results s' = results s @ p"
    if "ndc_step requests_get ing rx descr nd s = Inl (e, s')" for nd s e s'
    using ndc_step_died [OF that] by auto
  from for_each_died [of codes "ndc_step requests_get ing rx descr"
      "\<lambda>nd. [code_row requests_get ing rx descr nd]", OF ok died assms]
  show ?thesis by simp
qed

lemma rxcui_step_died:
  assumes "rxcui_step requests_get ing item st = Inl (e, s')"
  shows "\<exists>p. prefix p (item_rows requests_get ing item) \<and> results s' = results st @ p"
proof (cases "fetch_ndc_list requests_get (fst item)")
  case (Inl e')
  with assms show ?thesis by (simp add: rxcui_step_def Let_def)
next
  case (Inr l)
  then have codes: "codes_of requests_get (fst item) = l" by (simp add: codes_of_def)
  let ?st1 = "st\<lparr>ndc_list := Some l\<rparr>"
  show ?thesis
  proof (cases "py_bool l")
    case False
    with assms Inr show ?thesis by (simp add: rxcui_step_def Let_def)
  next
    case True
    show ?thesis
    proof (cases "py_len l")
      case (Inl e')
      with assms \<open>fetch_ndc_list requests_get (fst item) = Inr l\<close> True show ?thesis
        by (auto simp: rxcui_step_def Let_def)
    next
      case len: (Inr n)
      let ?st2 = "?st1\<lparr>total_ndc_count := total_ndc_count ?st1 + n\<rparr>"
      show ?thesis
      proof (cases "py_iter l")
        case (Inl e')
        with assms \<open>fetch_ndc_list requests_get (fst item) = Inr l\<close> True len show ?thesis
          by (auto simp: rxcui_step_def Let_def)
      next
        case (Inr cs)
        with assms \<open>fetch_ndc_list requests_get (fst item) = Inr l\<close> True len
        have loop: "for_each (ndc_step requests_get ing (fst item) (snd item)) cs ?st2 = Inl (e, s')"
          by (simp add: rxcui_step_def Let_def)
        from Inr have "items l = cs" by (simp add: items_def)
        with ndc_loop_died [OF loop] True codes show ?thesis by (simp add: item_rows_def)
      qed
    qed
  qed
qed

lemma rxcui_loop_died:
  assumes "for_each (rxcui_step requests_get ing) d st = Inl (e, s')"
  shows "\<exists>p. prefix p (concat (map (item_rows requests_get ing) d)) \<and> results s' = results st @ p"
  using for_each_died [OF _ _ assms] rxcui_step_rows rxcui_step_died by blast

lemma process_ingredient_died:
  assumes "process_ingredient requests_get ing st = Inl (e, s')"
  shows "\<exists>p. prefix p (ingredient_rows requests_get ing) \<and> results s' = results st @ p"
proof -
  have unchanged: ?thesis if "s' = st" using that by auto
  show ?thesis
  proof (cases "initial_rxcui_list requests_get ing")
    case (Inl e')
    with assms have "s' = st" by (simp add: process_ingredient_def)
        then show ?thesis by (rule unchanged)
  next
    case l: (Inr l)
    show ?thesis
    proof (cases "py_bool l")
      case False
      with assms l show ?thesis by (simp add: process_ingredient_def)
    next
      case True
      show ?thesis
      proof (cases "py_len l")
        case (Inl e')
        with assms l True have "s' = st" by (simp add: process_ingredient_def)
        then show ?thesis by (rule unchanged)
      next
        case len: (Inr n)
        show ?thesis
        proof (cases "py_iter l")
          case (Inl e')
          with assms l True len have "s' = st" by (simp add: process_ingredient_def)
        then show ?thesis by (rule unchanged)
        next
          case ids: (Inr ids)
          show ?thesis
          proof (cases "related_rxcui_dict requests_get ids")
            case (Inl e')
            with assms l True len ids have "s' = st"
              by (simp add: process_ingredient_def)
        then show ?thesis by (rule unchanged)
          next
            case d: (Inr d)
            from l True ids have "ids_of requests_get ing = ids" by (simp add: ids_of_def items_def)
            with related_rxcui_dict_flat [OF d] have disc: "discovered requests_get ing = d"
              by (simp add: discovered_def)
            let ?st1 = "st\<lparr>total_rxcui_count := total_rxcui_count st + int (length d)\<rparr>"
            show ?thesis
            proof (cases "for_each (rxcui_step requests_get ing) d ?st1")
              case (Inl died)
              with assms l True len ids d
              have "for_each (rxcui_step requests_get ing) d ?st1 = Inl (e, s')"
                by (simp add: process_ingredient_def)
              from rxcui_loop_died [OF this] disc show ?thesis
                by (simp add: ingredient_rows_def)
            next
              case (Inr st2)
              with assms l True len ids d have "s' = st2"
                by (auto simp: process_ingredient_def eval_eq_Inl)
              with rxcui_loop_rows [OF Inr] disc show ?thesis
                by (auto simp: ingredient_rows_def)
            qed
          qed
        qed
      qed
    qed
  qed
qed

lemma outer_loop_died:
  assumes "for_each (process_ingredient requests_get) ings st = Inl (e, s')"
  shows "\<exists>p. prefix p (concat (map (ingredient_rows requests_get) ings)) \<and> results s' = results st @ p"
  using for_each_died [OF _ _ assms] process_ingredient_rows process_ingredient_died by blast

lemma run_partial:
  "prefix (results (final_state (run requests_get)))
     (concat (map (ingredient_rows requests_get) ingredients))"
proof (cases "run requests_get")
  case (Inl died)
  obtain e s' where "died = (e, s')" by (cases died)
  with Inl outer_loop_died [of requests_get ingredients initial_globals e s'] show ?thesis
    by (auto simp: run_def initial_globals_def)
next
  case (Inr st)
  with outer_loop_rows [of requests_get ingredients initial_globals st] show ?thesis
    by (simp add: run_def initial_globals_def)
qed

lemma step_appends:
  "prefix (results s) (results (final_state (ndc_step requests_get ing rx descr nd s)))"
  "prefix (results s) (results (final_state (rxcui_step requests_get ing item s)))"
  "prefix (results s) (results (final_state (process_ingredient requests_get ing s)))"
proof -
  show "prefix (results s) (results (final_state (ndc_step requests_get ing rx descr nd s)))"
  proof (cases "ndc_step requests_get ing rx descr nd s")
    case (Inl died)
    then show ?thesis using ndc_step_died by (cases died) fastforce
  next
    case (Inr s')
    with ndc_step_row [OF this] show ?thesis by (simp add: append_row_def)
  qed
  show "prefix (results s) (results (final_state (rxcui_step requests_get ing item s)))"
  proof (cases "rxcui_step requests_get ing item s")
    case (Inl died)
    then show ?thesis using rxcui_step_died by (cases died) fastforce
  next
    case (Inr s')
    with rxcui_step_rows [OF this] show ?thesis by simp
  qed
  show "prefix (results s) (results (final_state (process_ingredient requests_get ing s)))"
  proof (cases "process_ingredient requests_get ing s")
    case (Inl died)
    then show ?thesis using process_ingredient_died by (cases died) fastforce
  next
    case (Inr s')
    with process_ingredient_rows [OF this] show ?thesis by simp
  qed
qed

section \<open>Relation expansion: filtering\<close>

text \<open>
  C10. A concept property entry whose term-type tag is accepted but whose
  identifier field is missing, null or the empty string is dropped silently:
  processing it raises nothing and leaves the identifier dict as it was, and the
  entry is not among the retained ones.
\<close>

theorem tagged_entry_without_identifier_dropped:
  assumes "map_of kvs ''tty'' = Some (JStr t)"
    and "t \<in> {''SCD'', ''SBD'', ''BPCK'', ''GPCK''}"
    and "map_of kvs ''rxcui'' = None \<or> map_of kvs ''rxcui'' = Some JNull
         \<or> map_of kvs ''rxcui'' = Some (JStr [])"
  shows "expand_cp (JObj kvs) d = Inr d \<and> \<not> retained (JObj kvs)"
  using assms
  by (auto simp: expand_cp_def in_term_types_accepted accepted_tag_def retained_def field_def)

theorem tagged_entry_without_identifier_dropped_witness:
  "expand_cp (JObj [(''tty'', JStr ''SBD''), (''rxcui'', JNull), (''name'', JStr ''Byetta'')])
     [(JStr ''311036'', JStr ''exenatide'')] = Inr [(JStr ''311036'', JStr ''exenatide'')]
   \<and> \<not> retained (JObj [(''tty'', JStr ''SBD''), (''rxcui'', JNull), (''name'', JStr ''Byetta'')])"
proof -
  let ?kvs = "[(''tty'', JStr ''SBD''), (''rxcui'', JNull), (''name'', JStr ''Byetta'')]"
  have tag: "map_of ?kvs ''tty'' = Some (JStr ''SBD'')" by simp
  have acc: "''SBD'' \<in> {''SCD'', ''SBD'', ''BPCK'', ''GPCK''}" by simp
  have ident: "map_of ?kvs ''rxcui'' = None \<or> map_of ?kvs ''rxcui'' = Some JNull
         \<or> map_of ?kvs ''rxcui'' = Some (JStr [])" by simp
  from tagged_entry_without_identifier_dropped [OF tag acc ident] show ?thesis .
qed

text \<open>
  C4. Only entries tagged SCD, SBD, BPCK or GPCK reach the expanded identifier set
  of an ingredient. An entry with any other tag, or with no tag, leaves the dict as
  it was; and every identifier of the finished dict, with its description, is
  that of some returned entry whose tag is one of the four.
\<close>

theorem only_accepted_tags_expand:
  "(is_dict cp \<and> \<not> accepted_tag (field cp ''tty'') \<longrightarrow> expand_cp cp d0 = Inr d0) \<and>
   (related_rxcui_dict requests_get ids = Inr d \<and> (k, v) \<in> set d \<longrightarrow>
      (\<exists>cp' \<in> set (entries requests_get ids).
          accepted_tag (field cp' ''tty'') \<and> field cp' ''rxcui'' = k \<and> field cp' ''name'' = v))"
proof (intro conjI impI)
  assume "is_dict cp \<and> \<not> accepted_tag (field cp ''tty'')"
  then show "expand_cp cp d0 = Inr d0"
    by (cases cp) (auto simp: expand_cp_def in_term_types_accepted field_def)
next
  assume a: "related_rxcui_dict requests_get ids = Inr d \<and> (k, v) \<in> set d"
  then have "d = first_seen (retained_pairs (entries requests_get ids))"
    by (simp add: related_rxcui_dict_flat)
  with a set_first_seen have "(k, v) \<in> set (retained_pairs (entries requests_get ids))"
    by blast
  then show "\<exists>cp' \<in> set (entries requests_get ids).
          accepted_tag (field cp' ''tty'') \<and> field cp' ''rxcui'' = k \<and> field cp' ''name'' = v"
    by (auto simp: retained_pairs_def retained_def)
qed

theorem only_accepted_tags_expand_witness:
  "is_dict (JObj [(''tty'', JStr ''BN''), (''rxcui'', JStr ''60548'')])
   \<and> \<not> accepted_tag (field (JObj [(''tty'', JStr ''BN''), (''rxcui'', JStr ''60548'')]) ''tty'')
   \<and> expand_cp (JObj [(''tty'', JStr ''BN''), (''rxcui'', JStr ''60548'')]) [] = Inr []
   \<and> related_rxcui_dict sample_service [JStr ''84108'']
       = Inr [(JStr ''311036'', JStr ''exenatide 250 MCG/ML Injectable Solution'')]
   \<and> (\<exists>cp' \<in> set (entries sample_service [JStr ''84108'']).
          accepted_tag (field cp' ''tty'') \<and> field cp' ''rxcui'' = JStr ''311036''
          \<and> field cp' ''name'' = JStr ''exenatide 250 MCG/ML Injectable Solution'')"
proof -
  let ?cp = "JObj [(''tty'', JStr ''BN''), (''rxcui'', JStr ''60548'')]"
  let ?d = "[(JStr ''311036'', JStr ''exenatide 250 MCG/ML Injectable Solution'')]"
  have h1: "is_dict ?cp \<and> \<not> accepted_tag (field ?cp ''tty'')"
    by (simp add: accepted_tag_def field_def)
  have h2: "related_rxcui_dict sample_service [JStr ''84108''] = Inr ?d"
    by code_simp
  have h3: "(JStr ''311036'', JStr ''exenatide 250 MCG/ML Injectable Solution'') \<in> set ?d"
    by simp
  from only_accepted_tags_expand [of ?cp "[]" sample_service "[JStr ''84108'']" ?d
      "JStr ''311036''" "JStr ''exenatide 250 MCG/ML Injectable Solution''"] h1 h2 h3
  show ?thesis by blast
qed

section \<open>Relation expansion: deduplication\<close>

text \<open>
  C5. Within one ingredient's expansion each identifier occurs once (no two keys of
  the dict are equal, also not as Python compares keys), and the pair stored for
  it is the first retained entry with that identifier, whatever later entries say.
  The dict starts empty for every ingredient: the rows an ingredient appends do
  not depend on what earlier ingredients left in the collection.
\<close>

theorem first_seen_per_ingredient:
  "(related_rxcui_dict requests_get ids = Inr d \<longrightarrow>
      distinct (map fst d) \<and>
      (\<forall>kv \<in> set d. \<forall>kv' \<in> set d. key_eq (fst kv) (fst kv') \<longrightarrow> kv = kv') \<and>
      (\<forall>kv \<in> set d.
         find (\<lambda>p. key_eq (fst p) (fst kv)) (retained_pairs (entries requests_get ids)) = Some kv)) \<and>
   (process_ingredient requests_get ing st = Inr st' \<longrightarrow>
      results st' = results st @ ingredient_rows requests_get ing)"
proof (intro conjI impI ballI)
  assume "related_rxcui_dict requests_get ids = Inr d"
  then have d: "d = first_seen (retained_pairs (entries requests_get ids))"
    by (rule related_rxcui_dict_flat)
  show "distinct (map fst d)" unfolding d by (rule distinct_first_seen)
  show "kv = kv'" if "kv \<in> set d" "kv' \<in> set d" "key_eq (fst kv) (fst kv')" for kv kv'
    using that unfolding d by (rule first_seen_key_unique)
  show "find (\<lambda>p. key_eq (fst p) (fst kv)) (retained_pairs (entries requests_get ids)) = Some kv"
    if "kv \<in> set d" for kv
    using that unfolding d by (rule find_first_seen)
next
  assume "process_ingredient requests_get ing st = Inr st'"
  then show "results st' = results st @ ingredient_rows requests_get ing"
    by (rule process_ingredient_rows)
qed

theorem first_seen_per_ingredient_witness:
  "related_rxcui_dict repeating_service [JStr ''84108'']
     = Inr [(JStr ''847910'', JStr ''Byetta 5 MCG''), (JStr ''311036'', JStr ''first name'')]
   \<and> retained_pairs (entries repeating_service [JStr ''84108''])
     = [(JStr ''847910'', JStr ''Byetta 5 MCG''), (JStr ''311036'', JStr ''first name''),
        (JStr ''311036'', JStr ''second name'')]
   \<and> find (\<lambda>p. key_eq (fst p) (JStr ''311036''))
         (retained_pairs (entries repeating_service [JStr ''84108'']))
     = Some (JStr ''311036'', JStr ''first name'')
   \<and> \<not> isl (process_ingredient repeating_service ''Exenatide'' earlier_state)
   \<and> results (projr (process_ingredient repeating_service ''Exenatide'' earlier_state))
     = null_row ''Liraglutide'' (JStr ''311036'') (JStr ''earlier'')
       # ingredient_rows repeating_service ''Exenatide''"
proof -
  let ?d = "[(JStr ''847910'', JStr ''Byetta 5 MCG''), (JStr ''311036'', JStr ''first name'')]"
  let ?st = "earlier_state"
  let ?r = "process_ingredient repeating_service ''Exenatide'' ?st"
  have d: "related_rxcui_dict repeating_service [JStr ''84108''] = Inr ?d"
    by code_simp
  have pairs: "retained_pairs (entries repeating_service [JStr ''84108''])
     = [(JStr ''847910'', JStr ''Byetta 5 MCG''), (JStr ''311036'', JStr ''first name''),
        (JStr ''311036'', JStr ''second name'')]"
    by code_simp
  have ok: "\<not> isl ?r"
    by code_simp
  then have r: "?r = Inr (projr ?r)" by simp
  note inst = first_seen_per_ingredient [of repeating_service "[JStr ''84108'']" ?d
      "''Exenatide''" ?st "projr ?r"]
  from inst d have "find (\<lambda>p. key_eq (fst p) (fst (JStr ''311036'', JStr ''first name'')))
         (retained_pairs (entries repeating_service [JStr ''84108'']))
     = Some (JStr ''311036'', JStr ''first name'')"
    by simp
  moreover from inst r have "results (projr ?r) = results ?st @ ingredient_rows repeating_service ''Exenatide''"
    by blast
  ultimately show ?thesis using d pairs ok by (simp add: earlier_state_def)
qed

section \<open>Failed and empty replies read as nothing\<close>

lemma safe_get_json_failed:
  "failed (requests_get url) \<Longrightarrow> safe_get_json requests_get url = JObj []"
  by (cases "requests_get url") (auto simp: safe_get_json_def)

lemma nothing_at_last: "nothing_at v [k] \<Longrightarrow> py_get v k (JArr []) = Inr (JArr [])"
  by (cases v) (auto split: option.splits)

lemma nothing_at_step:
  assumes "nothing_at v (k # k' # ks)"
  shows "\<exists>g. py_get v k (JObj []) = Inr g \<and> nothing_at g (k' # ks)"
  using assms by (cases v) (auto split: option.splits)

lemma initial_rxcui_list_nothing:
  assumes "nothing_at (safe_get_json requests_get (initial_url ing)) [''idGroup'', ''rxnormId'']"
  shows "initial_rxcui_list requests_get ing = Inr (JArr [])"
  using nothing_at_step [OF assms] by (auto simp: initial_rxcui_list_def nothing_at_last)

lemma concept_groups_nothing:
  assumes "nothing_at (safe_get_json requests_get (related_url rx)) [''allRelatedGroup'', ''conceptGroup'']"
  shows "concept_groups requests_get rx = Inr (JArr [])"
  using nothing_at_step [OF assms] by (auto simp: concept_groups_def nothing_at_last)

lemma fetch_ndc_list_nothing:
  assumes "nothing_at (safe_get_json requests_get (ndc_url rx)) [''ndcGroup'', ''ndcList'', ''ndc'']"
  shows "fetch_ndc_list requests_get rx = Inr (JArr [])"
proof -
  from nothing_at_step [OF assms] obtain g
    where g: "py_get (safe_get_json requests_get (ndc_url rx)) ''ndcGroup'' (JObj []) = Inr g"
      and "nothing_at g [''ndcList'', ''ndc'']" by blast
  from nothing_at_step [OF this(2)] obtain l
    where "py_get g ''ndcList'' (JObj []) = Inr l" and "nothing_at l [''ndc'']" by blast
  with g show ?thesis by (simp add: fetch_ndc_list_def nothing_at_last)
qed

section \<open>Skipped ingredients\<close>

text \<open>
  C3. When the name lookup of an ingredient gives no identifiers (the request
  failed, the body was empty or did not parse, the field is absent or holds the empty
  list, or whatever it holds is falsy), processing the ingredient raises nothing and
  changes nothing: no row is appended, and the outer loop goes on with the next
  ingredient from the same state.
\<close>

theorem empty_lookup_skips_ingredient:
  assumes "failed (requests_get (initial_url ing))
      \<or> nothing_at (safe_get_json requests_get (initial_url ing)) [''idGroup'', ''rxnormId'']
      \<or> (\<exists>l. initial_rxcui_list requests_get ing = Inr l \<and> \<not> py_bool l)"
  shows "process_ingredient requests_get ing st = Inr st
     \<and> for_each (process_ingredient requests_get) (ing # rest) st
       = for_each (process_ingredient requests_get) rest st"
proof -
  from assms have "\<exists>l. initial_rxcui_list requests_get ing = Inr l \<and> \<not> py_bool l"
  proof (elim disjE)
    assume "failed (requests_get (initial_url ing))"
    then have "safe_get_json requests_get (initial_url ing) = JObj []"
      by (rule safe_get_json_failed)
    then show ?thesis by (simp add: initial_rxcui_list_def)
  next
    assume "nothing_at (safe_get_json requests_get (initial_url ing)) [''idGroup'', ''rxnormId'']"
    then show ?thesis by (simp add: initial_rxcui_list_nothing)
  qed
  then have "process_ingredient requests_get ing st = Inr st"
    by (auto simp: process_ingredient_def)
  then show ?thesis by simp
qed

theorem empty_lookup_skips_ingredient_witness:
  "failed (sample_service (initial_url ''Liraglutide''))
   \<and> process_ingredient sample_service ''Liraglutide'' initial_globals = Inr initial_globals
   \<and> for_each (process_ingredient sample_service) [''Liraglutide'', ''Exenatide''] initial_globals
     = for_each (process_ingredient sample_service) [''Exenatide''] initial_globals"
proof -
  have f: "failed (sample_service (initial_url ''Liraglutide''))"
    by code_simp
  from empty_lookup_skips_ingredient [of sample_service "''Liraglutide''" initial_globals "[''Exenatide'']"] f
  show ?thesis by blast
qed

section \<open>Rows of one identifier\<close>

text \<open>
  C6. For a retained identifier whose product-code list is empty (the request
  failed, the body was empty or did not parse, the field is absent or holds the empty
  list, or whatever it holds is falsy), the step raises nothing and appends exactly
  one record: ingredient, identifier and concept description filled in, code and
  product description null.
\<close>

theorem no_codes_one_null_row:
  assumes "failed (requests_get (ndc_url rx))
      \<or> nothing_at (safe_get_json requests_get (ndc_url rx)) [''ndcGroup'', ''ndcList'', ''ndc'']
      \<or> (\<exists>l. fetch_ndc_list requests_get rx = Inr l \<and> \<not> py_bool l)"
  shows "\<exists>st'. rxcui_step requests_get ing (rx, descr) st = Inr st'
     \<and> results st' = results st @
         [\<lparr>ingredient = ing, rxcui = rx, ndc = JNull, rxcui_description = descr,
           ndc_description = JNull\<rparr>]"
proof -
  from assms have "\<exists>l. fetch_ndc_list requests_get rx = Inr l \<and> \<not> py_bool l"
  proof (elim disjE)
    assume "failed (requests_get (ndc_url rx))"
    then have "safe_get_json requests_get (ndc_url rx) = JObj []"
      by (rule safe_get_json_failed)
    then show ?thesis by (simp add: fetch_ndc_list_def)
  next
    assume "nothing_at (safe_get_json requests_get (ndc_url rx)) [''ndcGroup'', ''ndcList'', ''ndc'']"
    then show ?thesis by (simp add: fetch_ndc_list_nothing)
  qed
  then show ?thesis
    by (auto simp: rxcui_step_def append_row_def)
qed

theorem no_codes_one_null_row_witness:
  "failed (sample_service (ndc_url (JStr ''847910'')))
   \<and> rxcui_step sample_service ''Exenatide'' (JStr ''847910'', JStr ''Byetta 5 MCG'') initial_globals
     = Inr (initial_globals\<lparr>ndc_list := Some (JArr []),
         results := [\<lparr>ingredient = ''Exenatide'', rxcui = JStr ''847910'', ndc = JNull,
           rxcui_description = JStr ''Byetta 5 MCG'', ndc_description = JNull\<rparr>]\<rparr>)"
proof -
  have f: "failed (sample_service (ndc_url (JStr ''847910'')))"
    by code_simp
  have l: "fetch_ndc_list sample_service (JStr ''847910'') = Inr (JArr [])"
    by code_simp
  from no_codes_one_null_row [of sample_service "JStr ''847910''" "''Exenatide''"
      "JStr ''Byetta 5 MCG''" initial_globals] f
  obtain st' where "rxcui_step sample_service ''Exenatide'' (JStr ''847910'', JStr ''Byetta 5 MCG'')
       initial_globals = Inr st'"
    and "results st' = results initial_globals @
         [\<lparr>ingredient = ''Exenatide'', rxcui = JStr ''847910'', ndc = JNull,
           rxcui_description = JStr ''Byetta 5 MCG'', ndc_description = JNull\<rparr>]"
    by blast
  with l f show ?thesis
    by (auto simp: rxcui_step_def append_row_def initial_globals_def)
qed

lemma description_of_payload_name:
  "list_of_objects p \<Longrightarrow> description_of p = Inr (payload_name p)"
proof (cases p)
  case (JArr xs)
  assume "list_of_objects p"
  with JArr show ?thesis
    by (cases xs; cases "hd xs") auto
qed simp_all

text \<open>
  C7, as the code has it. For a retained identifier whose product-code list holds
  the codes \<open>codes\<close>, at least one, and for which every property request is read
  without a raise and gives a payload that is absent, a single object, or a list
  whose first entry is an object, the step raises nothing and appends exactly one
  record per code, in list order. Each record carries the description taken from
  the payload of its code: the name of the first entry of a non-empty list, the
  name of a single object, and null when the payload is absent or empty or the name
  is missing.
\<close>

theorem one_row_per_code:
  assumes "fetch_ndc_list requests_get rx = Inr (JArr codes)"
    and "codes \<noteq> []"
    and "\<forall>nd \<in> set codes. \<exists>p. ndc_property requests_get nd = Inr p \<and> list_of_objects p"
  shows "\<exists>st'. rxcui_step requests_get ing (rx, descr) st = Inr st'
     \<and> results st' = results st @
         map (\<lambda>nd. \<lparr>ingredient = ing, rxcui = rx, ndc = nd, rxcui_description = descr,
                     ndc_description = payload_name (payload requests_get nd)\<rparr>) codes
     \<and> length (results st') = length (results st) + length codes"
proof -
  let ?st1 = "st\<lparr>ndc_list := Some (JArr codes),
                 total_ndc_count := total_ndc_count st + int (length codes)\<rparr>"
  have descr: "and_then (ndc_property requests_get nd) description_of
      = Inr (payload_name (payload requests_get nd))" if "nd \<in> set codes" for nd
  proof -
    from assms(3) that obtain p where "ndc_property requests_get nd = Inr p" "list_of_objects p"
      by blast
    then show ?thesis by (simp add: payload_def description_of_payload_name)
  qed
  then have step: "\<exists>s'. ndc_step requests_get ing rx descr nd s = Inr s'"
    if "nd \<in> set codes" for nd s
    using that assms(3) by (fastforce simp: ndc_step_def description_of_payload_name)
  from for_each_succeeds [of codes "ndc_step requests_get ing rx descr", OF step]
  obtain st' where loop: "for_each (ndc_step requests_get ing rx descr) codes ?st1 = Inr st'"
    by blast
  have rows: "map (code_row requests_get ing rx descr) codes =
      map (\<lambda>nd. \<lparr>ingredient = ing, rxcui = rx, ndc = nd, rxcui_description = descr,
                  ndc_description = payload_name (payload requests_get nd)\<rparr>) codes"
    using descr by (simp add: code_row_def code_description_def)
  from assms(1,2) loop have "rxcui_step requests_get ing (rx, descr) st = Inr st'"
    by (simp add: rxcui_step_def Let_def)
  moreover from ndc_loop_rows [OF loop] rows
  have "results st' = results st @
         map (\<lambda>nd. \<lparr>ingredient = ing, rxcui = rx, ndc = nd, rxcui_description = descr,
                     ndc_description = payload_name (payload requests_get nd)\<rparr>) codes"
    by simp
  ultimately show ?thesis by simp
qed

theorem one_row_per_code_witness:
  "fetch_ndc_list three_codes_service (JStr ''311036'')
     = Inr (JArr [JStr ''00002-1433-01'', JStr ''66780-0210-07'', JStr ''00310-6512-01''])
   \<and> list_of_objects (payload three_codes_service (JStr ''00002-1433-01''))
   \<and> list_of_objects (payload three_codes_service (JStr ''66780-0210-07''))
   \<and> list_of_objects (payload three_codes_service (JStr ''00310-6512-01''))
   \<and> \<not> isl (rxcui_step three_codes_service ''Exenatide'' (JStr ''311036'', JStr ''exenatide'')
        initial_globals)
   \<and> results (projr (rxcui_step three_codes_service ''Exenatide'' (JStr ''311036'', JStr ''exenatide'')
        initial_globals))
     = [\<lparr>ingredient = ''Exenatide'', rxcui = JStr ''311036'', ndc = JStr ''00002-1433-01'',
          rxcui_description = JStr ''exenatide'',
          ndc_description = JStr ''exenatide 250 MCG/ML Injectable Solution [Byetta]''\<rparr>,
        \<lparr>ingredient = ''Exenatide'', rxcui = JStr ''311036'', ndc = JStr ''66780-0210-07'',
          rxcui_description = JStr ''exenatide'', ndc_description = JStr ''Byetta pen''\<rparr>,
        \<lparr>ingredient = ''Exenatide'', rxcui = JStr ''311036'', ndc = JStr ''00310-6512-01'',
          rxcui_description = JStr ''exenatide'', ndc_description = JNull\<rparr>]"
proof -
  let ?codes = "[JStr ''00002-1433-01'', JStr ''66780-0210-07'', JStr ''00310-6512-01'']"
  let ?r = "rxcui_step three_codes_service ''Exenatide'' (JStr ''311036'', JStr ''exenatide'')
        initial_globals"
  have l: "fetch_ndc_list three_codes_service (JStr ''311036'') = Inr (JArr ?codes)"
    by code_simp
  have ne: "?codes \<noteq> []" by simp
  have p1: "ndc_property three_codes_service (JStr ''00002-1433-01'')
      = Inr (JObj [(''name'', JStr ''exenatide 250 MCG/ML Injectable Solution [Byetta]'')])"
    by code_simp
  have p2: "ndc_property three_codes_service (JStr ''66780-0210-07'')
      = Inr (JArr [JObj [(''name'', JStr ''Byetta pen'')], JObj [(''name'', JStr ''second entry'')]])"
    by code_simp
  have p3: "ndc_property three_codes_service (JStr ''00310-6512-01'') = Inr JNull"
    by code_simp
  have shapes: "\<forall>nd \<in> set ?codes. \<exists>p. ndc_property three_codes_service nd = Inr p \<and> list_of_objects p"
    using p1 p2 p3 by simp
  from one_row_per_code [OF l ne shapes, of "''Exenatide''" "JStr ''exenatide''" initial_globals]
  obtain st' where r: "?r = Inr st'"
    and rows: "results st' = results initial_globals @
         map (\<lambda>nd. \<lparr>ingredient = ''Exenatide'', rxcui = JStr ''311036'', ndc = nd,
                     rxcui_description = JStr ''exenatide'',
                     ndc_description = payload_name (payload three_codes_service nd)\<rparr>) ?codes"
    by blast
  from rows p1 p2 p3 have "results st' =
       [\<lparr>ingredient = ''Exenatide'', rxcui = JStr ''311036'', ndc = JStr ''00002-1433-01'',
          rxcui_description = JStr ''exenatide'',
          ndc_description = JStr ''exenatide 250 MCG/ML Injectable Solution [Byetta]''\<rparr>,
        \<lparr>ingredient = ''Exenatide'', rxcui = JStr ''311036'', ndc = JStr ''66780-0210-07'',
          rxcui_description = JStr ''exenatide'', ndc_description = JStr ''Byetta pen''\<rparr>,
        \<lparr>ingredient = ''Exenatide'', rxcui = JStr ''311036'', ndc = JStr ''00310-6512-01'',
          rxcui_description = JStr ''exenatide'', ndc_description = JNull\<rparr>]"
    by (simp add: payload_def initial_globals_def)
  with r l p1 p2 p3 show ?thesis by (simp add: payload_def)
qed

text \<open>
  C7 as stated fails. With three codes of which the second has the payload
  \<^verbatim>\<open>["Byetta pen"]\<close>, a non-empty list whose first entry has no \<^verbatim>\<open>get\<close>, the
  script raises AttributeError after the first record: one record for three codes,
  where the wording promises three, the second with a null description. And a code
  list with no codes gives one record, the null one, not none.
\<close>

theorem one_row_per_code_counterexample:
  "fetch_ndc_list string_payload_service (JStr ''311036'')
     = Inr (JArr [JStr ''00002-1433-01'', JStr ''66780-0210-07'', JStr ''00310-6512-01''])
   \<and> payload string_payload_service (JStr ''66780-0210-07'') = JArr [JStr ''Byetta pen'']
   \<and> payload_name (payload string_payload_service (JStr ''66780-0210-07'')) = JNull
   \<and> rxcui_step string_payload_service ''Exenatide'' (JStr ''311036'', JStr ''exenatide'')
        initial_globals
     = Inl (AttributeError,
         initial_globals\<lparr>
           ndc_list := Some (JArr [JStr ''00002-1433-01'', JStr ''66780-0210-07'',
                                   JStr ''00310-6512-01'']),
           total_ndc_count := 3,
           results := [\<lparr>ingredient = ''Exenatide'', rxcui = JStr ''311036'',
             ndc = JStr ''00002-1433-01'', rxcui_description = JStr ''exenatide'',
             ndc_description = JStr ''exenatide 250 MCG/ML Injectable Solution [Byetta]''\<rparr>]\<rparr>)
   \<and> df string_payload_service = Inl AttributeError
   \<and> fetch_ndc_list no_codes_service (JStr ''311036'') = Inr (JArr [])
   \<and> rxcui_step no_codes_service ''Exenatide'' (JStr ''311036'', JStr ''exenatide'')
        initial_globals
     = Inr (initial_globals\<lparr>
           ndc_list := Some (JArr []),
           results := [\<lparr>ingredient = ''Exenatide'', rxcui = JStr ''311036'', ndc = JNull,
             rxcui_description = JStr ''exenatide'', ndc_description = JNull\<rparr>]\<rparr>)"
  by code_simp

section \<open>The collected results\<close>

text \<open>
  C9. The records stand in processing order: ingredient by ingredient in the order
  of the hard-coded list, within an ingredient identifier by identifier in
  discovery order, within an identifier code by code in the order of the fetched
  list. Whenever the script stops, the collection is an initial part of that
  sequence; when the run completes it is the whole of it, and the final table holds
  exactly these records. Every step only appends: what the collection held before
  is a prefix of what it holds after, also when the step raises.
\<close>

theorem results_in_processing_order:
  "prefix (results (final_state (run requests_get)))
      (concat (map (\<lambda>ing. concat (map (item_rows requests_get ing) (discovered requests_get ing)))
          [''Exenatide'', ''Liraglutide'', ''Semaglutide'', ''Dulaglutide'', ''Lixisenatide'',
           ''Albiglutide'', ''Tirzepatide''])) \<and>
   (run requests_get = Inr st \<longrightarrow>
      results st =
        concat (map (\<lambda>ing. concat (map (item_rows requests_get ing) (discovered requests_get ing)))
          [''Exenatide'', ''Liraglutide'', ''Semaglutide'', ''Dulaglutide'', ''Lixisenatide'',
           ''Albiglutide'', ''Tirzepatide''])
      \<and> df requests_get = Inr (results st)) \<and>
   prefix (results s1) (results (final_state (ndc_step requests_get ing rx descr nd s1))) \<and>
   prefix (results s2) (results (final_state (rxcui_step requests_get ing item s2))) \<and>
   prefix (results s3) (results (final_state (process_ingredient requests_get ing s3)))"
proof -
  have all: "concat (map (ingredient_rows requests_get) ingredients) =
      concat (map (\<lambda>ing. concat (map (item_rows requests_get ing) (discovered requests_get ing)))
          [''Exenatide'', ''Liraglutide'', ''Semaglutide'', ''Dulaglutide'', ''Lixisenatide'',
           ''Albiglutide'', ''Tirzepatide''])"
    by (simp add: ingredients_def ingredient_rows_def)
  have part: "prefix (results (final_state (run requests_get)))
      (concat (map (ingredient_rows requests_get) ingredients))"
    by (rule run_partial)
  have whole: "results st = concat (map (ingredient_rows requests_get) ingredients)
      \<and> df requests_get = Inr (results st)" if "run requests_get = Inr st"
    using that outer_loop_rows [of requests_get ingredients initial_globals st]
    by (simp add: run_def df_def initial_globals_def)
  from part whole step_appends show ?thesis unfolding all by blast
qed

theorem results_in_processing_order_witness:
  "\<not> isl (run two_identifier_service)
   \<and> results (projr (run two_identifier_service)) =
       [\<lparr>ingredient = ''Exenatide'', rxcui = JStr ''847910'', ndc = JNull,
          rxcui_description = JStr ''Byetta 5 MCG'', ndc_description = JNull\<rparr>,
        \<lparr>ingredient = ''Exenatide'', rxcui = JStr ''311036'', ndc = JStr ''00002-1433-01'',
          rxcui_description = JStr ''first name'',
          ndc_description = JStr ''exenatide 250 MCG/ML Injectable Solution [Byetta]''\<rparr>,
        \<lparr>ingredient = ''Exenatide'', rxcui = JStr ''311036'', ndc = JStr ''66780-0210-07'',
          rxcui_description = JStr ''first name'', ndc_description = JStr ''Byetta pen''\<rparr>,
        \<lparr>ingredient = ''Exenatide'', rxcui = JStr ''311036'', ndc = JStr ''00310-6512-01'',
          rxcui_description = JStr ''first name'', ndc_description = JNull\<rparr>]
   \<and> df two_identifier_service = Inr (results (projr (run two_identifier_service)))
   \<and> prefix (results earlier_state)
       (results (final_state (rxcui_step two_identifier_service ''Exenatide''
          (JStr ''311036'', JStr ''first name'') earlier_state)))"
proof -
  let ?run = "run two_identifier_service"
  have ok: "\<not> isl ?run" by code_simp
  note inst = results_in_processing_order [of two_identifier_service "projr ?run"
      earlier_state "''Exenatide''" "JStr ''311036''" "JStr ''first name''" "JStr ''66780-0210-07''"
      earlier_state "(JStr ''311036'', JStr ''first name'')" earlier_state]
  from ok have "?run = Inr (projr ?run)" by simp
  with inst have rows: "results (projr ?run) =
        concat (map (\<lambda>ing. concat (map (item_rows two_identifier_service ing)
            (discovered two_identifier_service ing)))
          [''Exenatide'', ''Liraglutide'', ''Semaglutide'', ''Dulaglutide'', ''Lixisenatide'',
           ''Albiglutide'', ''Tirzepatide''])"
    and table: "df two_identifier_service = Inr (results (projr ?run))"
    by blast+
  have "concat (map (\<lambda>ing. concat (map (item_rows two_identifier_service ing)
            (discovered two_identifier_service ing)))
          [''Exenatide'', ''Liraglutide'', ''Semaglutide'', ''Dulaglutide'', ''Lixisenatide'',
           ''Albiglutide'', ''Tirzepatide'']) =
       [\<lparr>ingredient = ''Exenatide'', rxcui = JStr ''847910'', ndc = JNull,
          rxcui_description = JStr ''Byetta 5 MCG'', ndc_description = JNull\<rparr>,
        \<lparr>ingredient = ''Exenatide'', rxcui = JStr ''311036'', ndc = JStr ''00002-1433-01'',
          rxcui_description = JStr ''first name'',
          ndc_description = JStr ''exenatide 250 MCG/ML Injectable Solution [Byetta]''\<rparr>,
        \<lparr>ingredient = ''Exenatide'', rxcui = JStr ''311036'', ndc = JStr ''66780-0210-07'',
          rxcui_description = JStr ''first name'', ndc_description = JStr ''Byetta pen''\<rparr>,
        \<lparr>ingredient = ''Exenatide'', rxcui = JStr ''311036'', ndc = JStr ''00310-6512-01'',
          rxcui_description = JStr ''first name'', ndc_description = JNull\<rparr>]"
    by code_simp
  with rows have r1: "results (projr ?run) =
       [\<lparr>ingredient = ''Exenatide'', rxcui = JStr ''847910'', ndc = JNull,
          rxcui_description = JStr ''Byetta 5 MCG'', ndc_description = JNull\<rparr>,
        \<lparr>ingredient = ''Exenatide'', rxcui = JStr ''311036'', ndc = JStr ''00002-1433-01'',
          rxcui_description = JStr ''first name'',
          ndc_description = JStr ''exenatide 250 MCG/ML Injectable Solution [Byetta]''\<rparr>,
        \<lparr>ingredient = ''Exenatide'', rxcui = JStr ''311036'', ndc = JStr ''66780-0210-07'',
          rxcui_description = JStr ''first name'', ndc_description = JStr ''Byetta pen''\<rparr>,
        \<lparr>ingredient = ''Exenatide'', rxcui = JStr ''311036'', ndc = JStr ''00310-6512-01'',
          rxcui_description = JStr ''first name'', ndc_description = JNull\<rparr>]"
    by simp
  from inst have "prefix (results earlier_state)
       (results (final_state (rxcui_step two_identifier_service ''Exenatide''
          (JStr ''311036'', JStr ''first name'') earlier_state)))"
    by blast
  with ok r1 table show ?thesis by blast
qed










section \<open>Transport failures\<close>

lemma stage_of_initial_url: "stage_of (initial_url ing) = Some Lookup"
  by (simp add: stage_of_def initial_url_def)

lemma stage_of_ndc_prop_url: "stage_of (ndc_prop_url nd) = Some Properties"
  by (simp add: stage_of_def ndc_prop_url_def)

lemma stage_of_related_url: "stage_of (related_url rx) = Some Related"
  by (simp add: stage_of_def related_url_def suffix_def)

lemma stage_of_ndc_url: "stage_of (ndc_url rx) = Some Codes"
  by (simp add: stage_of_def ndc_url_def suffix_to_prefix)

lemma eval_and_then:
  "eval (and_then m f) s k = eval m s (\<lambda>x. eval (f x) s k)"
  by (cases m) simp_all

lemma ndc_step_reads:
  "ndc_step requests_get ing rx descr nd st =
     eval (and_then (ndc_property requests_get nd) description_of) st (\<lambda>nd_descr.
       Inr (append_row \<lparr>ingredient = ing, rxcui = rx, ndc = nd,
              rxcui_description = descr, ndc_description = nd_descr\<rparr> st))"
  by (simp add: ndc_step_def eval_and_then)

lemma run_cong:
  assumes r1: "\<And>ing. initial_rxcui_list g1 ing = initial_rxcui_list g2 ing"
    and r2: "\<And>rx. concept_groups g1 rx = concept_groups g2 rx"
    and r3: "\<And>rx. fetch_ndc_list g1 rx = fetch_ndc_list g2 rx"
    and r4: "\<And>nd. and_then (ndc_property g1 nd) description_of
                 = and_then (ndc_property g2 nd) description_of"
  shows "run g1 = run g2"
proof -
  have n: "ndc_step g1 = ndc_step g2"
    by (intro ext) (simp add: ndc_step_reads r4)
  have x: "rxcui_step g1 = rxcui_step g2"
    by (intro ext) (simp add: rxcui_step_def Let_def r3 n cong: if_cong)
  have e: "expand_rxcui g1 = expand_rxcui g2"
    by (intro ext) (simp add: expand_rxcui_def r2)
  have d: "related_rxcui_dict g1 = related_rxcui_dict g2"
    by (intro ext) (simp add: related_rxcui_dict_def e)
  have "process_ingredient g1 = process_ingredient g2"
    by (intro ext) (simp add: process_ingredient_def r1 d x cong: if_cong)
  then show ?thesis by (simp add: run_def)
qed

lemma description_of_nothing:
  assumes "nothing_at v [''ndcPropertyGroup'', ''ndcProperty'']"
  shows "and_then (and_then (py_get v ''ndcPropertyGroup'' (JObj [])) (\<lambda>g. py_get g ''ndcProperty'' JNull))
           description_of = Inr JNull"
proof -
  from nothing_at_step [OF assms] obtain g
    where g: "py_get v ''ndcPropertyGroup'' (JObj []) = Inr g" and n: "nothing_at g [''ndcProperty'']"
    by blast
  from n have "py_get g ''ndcProperty'' JNull = Inr JNull \<or> py_get g ''ndcProperty'' JNull = Inr (JArr [])"
    by (cases g) (auto split: option.splits)
  with g show ?thesis by auto
qed

text \<open>
  C2, as the code has it. At every call site, a request that raises, a blank body
  and a body that does not parse give the same run, final table included, as a
  legitimately empty answer of that stage: a JSON object in which the stage's
  path of fields is absent or ends in the empty list. The status code plays no
  part.
\<close>

theorem failure_reads_as_empty:
  assumes "failed f" and "stage_of u = Some s" and "nothing_at j (data_path s)"
  shows "run (requests_get(u := f)) = run (requests_get(u := Response status txt (Some j)))
     \<and> df (requests_get(u := f)) = df (requests_get(u := Response status txt (Some j)))"
proof -
  let ?g1 = "requests_get(u := f)" and ?g2 = "requests_get(u := Response status txt (Some j))"
  have other: "safe_get_json ?g1 u' = safe_get_json ?g2 u'" if "u' \<noteq> u" for u'
    using that by (simp add: safe_get_json_def)
  have j1: "safe_get_json ?g1 u = JObj []"
    using assms(1) by (simp add: safe_get_json_failed)
  have j2: "safe_get_json ?g2 u = JObj [] \<or> safe_get_json ?g2 u = j"
    by (simp add: safe_get_json_def)
  have n1: "nothing_at (safe_get_json ?g1 u) (data_path s)"
    unfolding j1 by (cases s) simp_all
  have n2: "nothing_at (safe_get_json ?g2 u) (data_path s)"
    using j2 assms(3) by (cases s) auto
  have r1: "initial_rxcui_list ?g1 ing = initial_rxcui_list ?g2 ing" for ing
  proof (cases "initial_url ing = u")
    case True
    with assms(2) stage_of_initial_url [of ing] have "s = Lookup" by simp
    with n1 n2 True show ?thesis by (simp add: initial_rxcui_list_nothing)
  next
    case False
    from other [OF this] show ?thesis by (simp add: initial_rxcui_list_def)
  qed
  have r2: "concept_groups ?g1 rx = concept_groups ?g2 rx" for rx
  proof (cases "related_url rx = u")
    case True
    with assms(2) stage_of_related_url [of rx] have "s = Related" by simp
    with n1 n2 True show ?thesis by (simp add: concept_groups_nothing)
  next
    case False
    from other [OF this] show ?thesis by (simp add: concept_groups_def)
  qed
  have r3: "fetch_ndc_list ?g1 rx = fetch_ndc_list ?g2 rx" for rx
  proof (cases "ndc_url rx = u")
    case True
    with assms(2) stage_of_ndc_url [of rx] have "s = Codes" by simp
    with n1 n2 True show ?thesis by (simp add: fetch_ndc_list_nothing)
  next
    case False
    from other [OF this] show ?thesis by (simp add: fetch_ndc_list_def)
  qed
  have r4: "and_then (ndc_property ?g1 nd) description_of
          = and_then (ndc_property ?g2 nd) description_of" for nd
  proof (cases "ndc_prop_url nd = u")
    case True
    with assms(2) stage_of_ndc_prop_url [of nd] have "s = Properties" by simp
    with n1 n2 True show ?thesis
      using description_of_nothing [of "safe_get_json ?g1 u"]
        description_of_nothing [of "safe_get_json ?g2 u"]
      by (simp add: ndc_property_def)
  next
    case False
    from other [OF this] show ?thesis by (simp add: ndc_property_def)
  qed
  have "run ?g1 = run ?g2" by (rule run_cong) (rule r1 r2 r3 r4)+
  then show ?thesis by (simp add: df_def)
qed

theorem failure_reads_as_empty_witness:
  "failed (Response 502 ''<html>Bad Gateway</html>'' None)
   \<and> stage_of ''https://rxnav.nlm.nih.gov/REST/rxcui/311036/ndcs.json'' = Some Codes
   \<and> nothing_at no_codes_body (data_path Codes)
   \<and> run (sample_service(''https://rxnav.nlm.nih.gov/REST/rxcui/311036/ndcs.json'' :=
          Response 502 ''<html>Bad Gateway</html>'' None))
     = run (sample_service(''https://rxnav.nlm.nih.gov/REST/rxcui/311036/ndcs.json'' :=
          Response 200 no_codes_text (Some no_codes_body)))
   \<and> df (sample_service(''https://rxnav.nlm.nih.gov/REST/rxcui/311036/ndcs.json'' :=
          Response 502 ''<html>Bad Gateway</html>'' None))
     = df (sample_service(''https://rxnav.nlm.nih.gov/REST/rxcui/311036/ndcs.json'' :=
          Response 200 no_codes_text (Some no_codes_body)))
   \<and> df (sample_service(''https://rxnav.nlm.nih.gov/REST/rxcui/311036/ndcs.json'' :=
          Response 502 ''<html>Bad Gateway</html>'' None))
     = Inr [\<lparr>ingredient = ''Exenatide'', rxcui = JStr ''311036'', ndc = JNull,
              rxcui_description = JStr ''exenatide 250 MCG/ML Injectable Solution'',
              ndc_description = JNull\<rparr>]"
proof -
  let ?u = "''https://rxnav.nlm.nih.gov/REST/rxcui/311036/ndcs.json''"
  have f: "failed (Response 502 ''<html>Bad Gateway</html>'' None)" by simp
  have s: "stage_of ?u = Some Codes" by code_simp
  have n: "nothing_at no_codes_body (data_path Codes)" by code_simp
  have v: "df (sample_service(?u := Response 502 ''<html>Bad Gateway</html>'' None))
     = Inr [\<lparr>ingredient = ''Exenatide'', rxcui = JStr ''311036'', ndc = JNull,
              rxcui_description = JStr ''exenatide 250 MCG/ML Injectable Solution'',
              ndc_description = JNull\<rparr>]"
    by code_simp
  from failure_reads_as_empty [OF f s n, of sample_service 200 no_codes_text] f s n v
  show ?thesis by blast
qed

text \<open>
  C2 as stated fails for an HTTP error: a reply with status 500 whose body parses
  is read like any other reply, so the run differs from the one in which the same
  request gets a legitimately empty answer.
\<close>

theorem failure_reads_as_empty_counterexample:
  "df http_error_service =
     Inr [\<lparr>ingredient = ''Exenatide'', rxcui = JStr ''311036'', ndc = JStr ''00002-1433-01'',
            rxcui_description = JStr ''exenatide 250 MCG/ML Injectable Solution'',
            ndc_description = JStr ''exenatide 250 MCG/ML Injectable Solution [Byetta]''\<rparr>]
   \<and> df empty_lookup_service = Inr []
   \<and> df http_error_service \<noteq> df empty_lookup_service"
  by code_simp

section \<open>The final table\<close>

text \<open>
  C1. The specification has the final table free of rows whose product code is
  null, and the script's Step 4 comment announces their removal. The script builds
  the table from the whole collection and drops nothing: for an identifier without
  codes the final table holds the row with the null code.
\<close>

theorem final_table_keeps_null_code_row:
  "df no_codes_service =
     Inr [\<lparr>ingredient = ''Exenatide'', rxcui = JStr ''311036'', ndc = JNull,
            rxcui_description = JStr ''exenatide 250 MCG/ML Injectable Solution'',
            ndc_description = JNull\<rparr>]"
  by code_simp

end
